theory Spec2Isabelle
  imports Main "HOL-Library.Sublist"
begin

section \<open>JavaScript values\<close>

text \<open>
  The agent of \<^verbatim>\<open>agent.js\<close> works on values decoded from JSON: upstream responses,
  tool-call requests and tool results. A value is \<^verbatim>\<open>undefined\<close>, \<^verbatim>\<open>null\<close>, a boolean,
  a number, a string, an array or a plain object. The code does no arithmetic on such
  numbers; it only tests them for truthiness and prints them, so a number is carried
  as the text that JavaScript prints for it (\<^verbatim>\<open>-0\<close> prints as \<^verbatim>\<open>0\<close>). An object is the
  list of its own properties in enumeration order, with distinct keys.
\<close>

datatype jsval =
    Undefined
  | Null
  | JBool bool
  | JNum string
  | JStr string
  | JArr "jsval list"
  | JObj "(string \<times> jsval) list"

text \<open>A thrown value is an error object, with its \<^verbatim>\<open>name\<close> and its \<^verbatim>\<open>message\<close>.\<close>

datatype exn = Exn (exn_name: string) (exn_message: string)

abbreviation Error :: "string \<Rightarrow> exn" where
  "Error m \<equiv> Exn ''Error'' m"

abbreviation TypeError :: "string \<Rightarrow> exn" where
  "TypeError m \<equiv> Exn ''TypeError'' m"

text \<open>Sequencing of computations that may throw: the first exception wins.\<close>

definition bind :: "exn + 'a \<Rightarrow> ('a \<Rightarrow> exn + 'b) \<Rightarrow> exn + 'b" where
  "bind m f = (case m of Inl e \<Rightarrow> Inl e | Inr x \<Rightarrow> f x)"

fun sequence :: "(exn + 'a) list \<Rightarrow> exn + 'a list" where
  "sequence [] = Inr []"
| "sequence (m # ms) =
     (case m of
        Inl e \<Rightarrow> Inl e
      | Inr x \<Rightarrow> (case sequence ms of Inl e \<Rightarrow> Inl e | Inr xs \<Rightarrow> Inr (x # xs)))"

text \<open>Decimal text of a natural number (array lengths, HTTP status codes).\<close>

function show_nat :: "nat \<Rightarrow> string" where
  "show_nat n =
     (if n < 10 then [char_of (48 + n)]
      else show_nat (n div 10) @ [char_of (48 + n mod 10)])"
  by pat_completeness auto
termination
  by (relation "measure id") auto

declare show_nat.simps [simp del]

text \<open>Truthiness, as \<^verbatim>\<open>if (v)\<close>, \<^verbatim>\<open>!v\<close> and \<^verbatim>\<open>a || b\<close> read it.\<close>

fun truthy :: "jsval \<Rightarrow> bool" where
  "truthy Undefined = False"
| "truthy Null = False"
| "truthy (JBool b) = b"
| "truthy (JNum s) = (s \<noteq> ''0'' \<and> s \<noteq> ''NaN'')"
| "truthy (JStr s) = (s \<noteq> [])"
| "truthy (JArr xs) = True"
| "truthy (JObj kvs) = True"

definition js_or :: "jsval \<Rightarrow> jsval \<Rightarrow> jsval" where
  "js_or a b = (if truthy a then a else b)"

text \<open>
  Property read \<^verbatim>\<open>v.k\<close> (and \<^verbatim>\<open>v[0]\<close>, with the key \<^verbatim>\<open>0\<close>). On \<^verbatim>\<open>undefined\<close> and
  \<^verbatim>\<open>null\<close> it throws a TypeError, whose message text is the engine's. Arrays and
  strings have \<^verbatim>\<open>length\<close> and their index keys. The keys that the code reads
  (\<^verbatim>\<open>choices\<close>, \<^verbatim>\<open>message\<close>, \<^verbatim>\<open>content\<close>, \<^verbatim>\<open>function\<close>, \<^verbatim>\<open>name\<close>, ...) are not defined
  on any prototype, so every other read of a missing key gives \<^verbatim>\<open>undefined\<close>.
\<close>

definition index_of_key :: "string \<Rightarrow> nat \<Rightarrow> nat option" where
  "index_of_key k n = List.find (\<lambda>i. show_nat i = k) [0..<n]"

fun get :: "jsval \<Rightarrow> string \<Rightarrow> exn + jsval" where
  "get Undefined k = Inl (TypeError ''Cannot read properties of undefined'')"
| "get Null k = Inl (TypeError ''Cannot read properties of null'')"
| "get (JObj kvs) k = Inr (case map_of kvs k of Some v \<Rightarrow> v | None \<Rightarrow> Undefined)"
| "get (JArr xs) k =
     Inr (if k = ''length'' then JNum (show_nat (length xs))
          else (case index_of_key k (length xs) of Some i \<Rightarrow> xs ! i | None \<Rightarrow> Undefined))"
| "get (JStr s) k =
     Inr (if k = ''length'' then JNum (show_nat (length s))
          else (case index_of_key k (length s) of Some i \<Rightarrow> JStr [s ! i] | None \<Rightarrow> Undefined))"
| "get (JBool b) k = Inr Undefined"
| "get (JNum n) k = Inr Undefined"

text \<open>Optional chaining \<^verbatim>\<open>v?.k\<close>: \<^verbatim>\<open>undefined\<close> when \<^verbatim>\<open>v\<close> is \<^verbatim>\<open>undefined\<close> or \<^verbatim>\<open>null\<close>.\<close>

definition get_opt :: "jsval \<Rightarrow> string \<Rightarrow> jsval" where
  "get_opt v k = (case get v k of Inl e \<Rightarrow> Undefined | Inr x \<Rightarrow> x)"

text \<open>
  Conversion to a string, as a template literal and \<^verbatim>\<open>Array.prototype.join\<close> do it.
  A plain object prints as \<^verbatim>\<open>[object Object]\<close>, unless it has an own property
  \<^verbatim>\<open>toString\<close>: a decoded JSON value is never callable, and the conversion throws.
  An array prints its elements joined by commas, \<^verbatim>\<open>undefined\<close> and \<^verbatim>\<open>null\<close>
  elements as the empty string.
\<close>

fun intercalate :: "string \<Rightarrow> string list \<Rightarrow> string" where
  "intercalate sep [] = []"
| "intercalate sep [s] = s"
| "intercalate sep (s # t # ss) = s @ sep @ intercalate sep (t # ss)"

fun ToString :: "jsval \<Rightarrow> exn + string" where
  "ToString Undefined = Inr ''undefined''"
| "ToString Null = Inr ''null''"
| "ToString (JBool b) = Inr (if b then ''true'' else ''false'')"
| "ToString (JNum s) = Inr s"
| "ToString (JStr s) = Inr s"
| "ToString (JArr xs) =
     bind (sequence (map (\<lambda>x. if x = Undefined \<or> x = Null then Inr [] else ToString x) xs))
       (\<lambda>ss. Inr (intercalate '','' ss))"
| "ToString (JObj kvs) =
     (if ''toString'' \<in> set (map fst kvs)
      then Inl (TypeError ''Cannot convert object to primitive value'')
      else Inr ''[object Object]'')"

text \<open>\<^verbatim>\<open>xs.join(sep)\<close> on an array.\<close>

definition join :: "string \<Rightarrow> jsval list \<Rightarrow> exn + string" where
  "join sep xs =
     bind (sequence (map (\<lambda>x. if x = Undefined \<or> x = Null then Inr [] else ToString x) xs))
       (\<lambda>ss. Inr (intercalate sep ss))"


section \<open>Data model\<close>

text \<open>
  A message of a conversation. \<^verbatim>\<open>addMessage\<close> builds messages with \<^verbatim>\<open>role\<close> and
  \<^verbatim>\<open>content\<close>; the agent loop also pushes an assistant message that carries the
  tool-call requests, and tool messages with \<^verbatim>\<open>tool_call_id\<close> and \<^verbatim>\<open>name\<close>. A field
  that a message does not have reads as \<^verbatim>\<open>undefined\<close>. The fields \<^verbatim>\<open>id\<close> and
  \<^verbatim>\<open>timestamp\<close> are taken from the wall clock and are only rendered, never read back
  by the loop, the gateway or the tools; they are left out.
\<close>

record message =
  role :: string
  content :: jsval
  tool_calls :: jsval
  tool_call_id :: jsval
  tool_name :: jsval

record conversation =
  title :: string
  preview :: string
  messages :: "message list"

text \<open>
  \<^verbatim>\<open>settings.llm\<close>; an unset string setting is the empty string. \<^verbatim>\<open>baseUrl\<close> is
  always a string: \<^verbatim>\<open>loadSettings\<close> fills it from the defaults. (On a stored
  \<^verbatim>\<open>null\<close> the code would throw at \<^verbatim>\<open>baseUrl.replace\<close>, before any request; that
  state is outside the model.)
\<close>

record llm_settings =
  provider :: string
  apiKey :: string
  model :: string
  maxTokens :: jsval
  temperature :: jsval
  baseUrl :: string

text \<open>The request that \<^verbatim>\<open>callLLM\<close> hands to \<^verbatim>\<open>fetch\<close>, before serialisation.\<close>

record request_body =
  body_model :: string
  body_messages :: "(string \<times> jsval) list"
  body_max_tokens :: jsval
  body_temperature :: jsval

record request =
  url :: string
  http_method :: string
  headers :: "(string \<times> string) list"
  body :: request_body

text \<open>
  What \<^verbatim>\<open>fetch\<close> resolves to: the status line and the outcome of \<^verbatim>\<open>resp.json()\<close>
  (\<open>Inl\<close> when the body is not JSON and \<^verbatim>\<open>resp.json()\<close> rejects).
\<close>

record response =
  status :: nat
  statusText :: string
  json :: "exn + jsval"

text \<open>\<^verbatim>\<open>resp.ok\<close>: the status is in the range 200 to 299.\<close>

definition ok :: "response \<Rightarrow> bool" where
  "ok r = (200 \<le> status r \<and> status r \<le> 299)"

datatype fetch_result = Rejected exn | Resolved response

text \<open>
  The host of the agent: the JSON codec of the language, the network, and the
  scheduler. \<^verbatim>\<open>JSON.parse\<close> throws on malformed text (\<open>Inl\<close>). \<open>fetch\<close> answers a
  request, given the requests issued before it. \<^verbatim>\<open>Promise.all\<close> rejects with the
  reason of whichever promise rejects first in time, which the scheduler decides:
  \<open>first_rejected\<close> picks it among the reasons.
\<close>

record host =
  JSON_parse :: "string \<Rightarrow> exn + jsval"
  JSON_stringify :: "jsval \<Rightarrow> string"
  fetch :: "request list \<Rightarrow> request \<Rightarrow> fetch_result"
  first_rejected :: "exn list \<Rightarrow> exn"

text \<open>
  The part of \<^verbatim>\<open>this.state\<close> that the loop reads and writes. \<open>requests\<close> logs the
  network requests issued so far (it is not a field of the program's state).
\<close>

record app_state =
  conversations :: "string \<Rightarrow> conversation option"
  currentConversationId :: "string option"
  settings :: llm_settings
  apiCalls :: nat
  requests :: "request list"

text \<open>
  The normalised model response, as the loop reads it: \<^verbatim>\<open>content\<close>, and the array
  \<^verbatim>\<open>tool_calls\<close> when the object has one (\<open>None\<close> when it has none).
\<close>

record model_response =
  response_content :: jsval
  response_tool_calls :: "jsval list option"

section \<open>Message store: \<^verbatim>\<open>addMessage\<close>\<close>

text \<open>
  \<^verbatim>\<open>addMessage(role, content, conversationId)\<close>. Rendering, scrolling and the sidebar
  refresh happen after the push, each inside its own \<^verbatim>\<open>try\<close>; they leave the state
  modelled here alone. \<^verbatim>\<open>substring(0, n)\<close> is \<open>take n\<close>: it counts the characters
  of the model's strings (bytes), where the code counts UTF-16 units, so title and
  preview agree with the code on ASCII text.
\<close>

definition ui_message :: "string \<Rightarrow> jsval \<Rightarrow> message" where
  "ui_message r c =
     \<lparr>role = r, content = c, tool_calls = Undefined, tool_call_id = Undefined,
      tool_name = Undefined\<rparr>"

definition falsy_id :: "string option \<Rightarrow> bool" where
  "falsy_id i = (case i of None \<Rightarrow> True | Some s \<Rightarrow> s = [])"

text \<open>The push, and the refresh of preview and title that follows it.\<close>

definition appended :: "string \<Rightarrow> jsval \<Rightarrow> conversation \<Rightarrow> conversation" where
  "appended r c conv =
     (let conv1 = conv\<lparr>messages := messages conv @ [ui_message r c]\<rparr> in
      case c of
        JStr s \<Rightarrow>
          if r \<noteq> ''system''
          then conv1\<lparr>preview := take 100 s,
                 title :=
                   (if title conv1 = [] \<or> title conv1 = ''New Conversation''
                    then (if take 30 s = [] then ''Conversation'' else take 30 s)
                    else title conv1)\<rparr>
          else conv1
      | _ \<Rightarrow> conv1)"

definition addMessage :: "string \<Rightarrow> jsval \<Rightarrow> string option \<Rightarrow> app_state \<Rightarrow> app_state" where
  "addMessage r c conversationId st =
     (let convId = (if falsy_id conversationId then currentConversationId st else conversationId)
      in case convId of
           None \<Rightarrow> st
         | Some i \<Rightarrow>
             if i = [] then st
             else (case conversations st i of
                     None \<Rightarrow> st
                   | Some conv \<Rightarrow>
                       if c = Null \<or> c = Undefined then st
                       else st\<lparr>conversations := (conversations st)(i \<mapsto> appended r c conv)\<rparr>))"

section \<open>Model gateway: \<^verbatim>\<open>parseAPIResponse\<close>\<close>

text \<open>
  The body of the \<^verbatim>\<open>try\<close> block. Every \<^verbatim>\<open>return\<close> builds an object with the single
  property \<^verbatim>\<open>content\<close>. The argument \<^verbatim>\<open>provider\<close> is not read.
\<close>

definition no_tools :: "jsval \<Rightarrow> model_response" where
  "no_tools c = \<lparr>response_content = c, response_tool_calls = None\<rparr>"

definition parse_choices :: "jsval \<Rightarrow> exn + model_response" where
  "parse_choices data =
     bind (get data ''choices'') (\<lambda>choices.
     bind (get choices ''0'') (\<lambda>c0.
     bind (get c0 ''message'') (\<lambda>m.
       let msg = js_or m (JObj []) in
       bind (get msg ''content'') (\<lambda>mc.
       bind (get c0 ''text'') (\<lambda>t.
         Inr (no_tools (js_or mc (js_or t (JStr [])))))))))"

definition parse_candidates :: "jsval \<Rightarrow> exn + model_response" where
  "parse_candidates data =
     bind (get data ''candidates'') (\<lambda>cands.
     bind (get cands ''0'') (\<lambda>c0.
     bind (get c0 ''content'') (\<lambda>ct.
       let parts = js_or (get_opt ct ''parts'') (js_or ct (JArr [])) in
       case parts of
         JArr ps \<Rightarrow>
           bind (sequence (map (\<lambda>p. bind (get p ''text'') (\<lambda>t. Inr (js_or t p))) ps)) (\<lambda>qs.
           bind (join [] qs) (\<lambda>text.
             Inr (no_tools (JStr text))))
       | _ \<Rightarrow> Inr (no_tools parts))))"

definition parse_body :: "jsval \<Rightarrow> exn + model_response" where
  "parse_body data =
     (if truthy (get_opt (get_opt data ''choices'') ''length'') then parse_choices data
      else if truthy (get_opt (get_opt data ''candidates'') ''length'') then parse_candidates data
      else Inr (no_tools (case data of
                            JStr s \<Rightarrow> JStr s
                          | _ \<Rightarrow> JStr ''Received an unrecognized response format.'')))"

definition parseAPIResponse :: "jsval \<Rightarrow> string \<Rightarrow> exn + model_response" where
  "parseAPIResponse data prov =
     (case parse_body data of
        Inl e \<Rightarrow> Inl (Error ''Could not parse the API response.'')
      | Inr r \<Rightarrow> Inr r)"


section \<open>Model gateway: \<^verbatim>\<open>callLLM\<close>\<close>

text \<open>\<^verbatim>\<open>JSON.stringify(v)\<close> is \<^verbatim>\<open>undefined\<close> for \<^verbatim>\<open>undefined\<close>, a string otherwise.\<close>

definition stringify :: "host \<Rightarrow> jsval \<Rightarrow> jsval" where
  "stringify h v = (case v of Undefined \<Rightarrow> Undefined | _ \<Rightarrow> JStr (JSON_stringify h v))"

definition api_message :: "host \<Rightarrow> message \<Rightarrow> string \<times> jsval" where
  "api_message h m =
     (if role m = ''tool'' then ''system'' else role m,
      case content m of JStr s \<Rightarrow> JStr s | v \<Rightarrow> stringify h v)"

definition messagesForApi :: "host \<Rightarrow> conversation \<Rightarrow> (string \<times> jsval) list" where
  "messagesForApi h conv = filter (\<lambda>m. truthy (snd m)) (map (api_message h) (messages conv))"

text \<open>\<^verbatim>\<open>baseUrl.replace(/\/+$/, '')\<close>: the trailing slashes are dropped.\<close>

definition strip_slashes :: "string \<Rightarrow> string" where
  "strip_slashes s = rev (dropWhile (\<lambda>c. c = CHR ''/'') (rev s))"

text \<open>The light-bulb sign that opens the demo text, as its four UTF-8 bytes.\<close>

definition light_bulb :: string where
  "light_bulb = [CHR 0xF0, CHR 0x9F, CHR 0x92, CHR 0xA1]"

definition demo_text :: string where
  "demo_text =
     light_bulb @ '' Demo response: add your AI Pipe token in Settings to query real models.''"

definition demo_response :: jsval where
  "demo_response =
     JObj [(''choices'', JArr [JObj [(''message'', JObj [(''content'', JStr demo_text)])]])]"

definition request_to :: "string \<Rightarrow> llm_settings \<Rightarrow> (string \<times> jsval) list \<Rightarrow> request" where
  "request_to path s msgs =
     \<lparr>url = strip_slashes (baseUrl s) @ path,
      http_method = ''POST'',
      headers = [(''Content-Type'', ''application/json''),
                 (''Authorization'', ''Bearer '' @ apiKey s)],
      body = \<lparr>body_model = (if model s = [] then ''openai/gpt-4o-mini'' else model s),
               body_messages = msgs,
               body_max_tokens = maxTokens s,
               body_temperature = temperature s\<rparr>\<rparr>"

text \<open>
  The error text of a response that is not \<^verbatim>\<open>ok\<close>: status and status text, replaced
  by \<^verbatim>\<open>errJson.error?.message || JSON.stringify(errJson)\<close> when the body decodes and
  that expression does not throw.
\<close>

definition error_text :: "host \<Rightarrow> response \<Rightarrow> jsval" where
  "error_text h r =
     (let dflt = JStr (show_nat (status r) @ '' '' @ statusText r) in
      case json r of
        Inl e \<Rightarrow> dflt
      | Inr errJson \<Rightarrow>
          (case get errJson ''error'' of
             Inl e \<Rightarrow> dflt
           | Inr er \<Rightarrow> js_or (get_opt er ''message'') (JStr (JSON_stringify h errJson))))"

definition tip :: "string \<Rightarrow> string" where
  "tip m =
     ''. Tip: ensure your token has access to **'' @ m @
     ''**, or pick a listed model in Settings.''"

definition primary_error :: "host \<Rightarrow> response \<Rightarrow> string \<Rightarrow> exn" where
  "primary_error h r m =
     (case ToString (error_text h r) of
        Inl e \<Rightarrow> e
      | Inr t \<Rightarrow> Error (''AI Pipe error ('' @ show_nat (status r) @ ''): '' @ t @ tip m))"

definition fallback_error :: "host \<Rightarrow> response \<Rightarrow> exn" where
  "fallback_error h r =
     (case ToString (error_text h r) of
        Inl e \<Rightarrow> e
      | Inr t \<Rightarrow> Error (''AI Pipe (fallback) error ('' @ show_nat (status r) @ ''): '' @ t))"

text \<open>
  The outer \<^verbatim>\<open>try\<close> block (primary endpoint) and the inner one (fallback endpoint):
  the data, or the exception that reaches the \<^verbatim>\<open>catch\<close>. The first argument is the
  log of the requests issued before this one.
\<close>

definition primary_attempt :: "host \<Rightarrow> request list \<Rightarrow> request \<Rightarrow> exn + jsval" where
  "primary_attempt h log req =
     (case fetch h log req of
        Rejected e \<Rightarrow> Inl e
      | Resolved r \<Rightarrow>
          if \<not> ok r then Inl (primary_error h r (body_model (body req))) else json r)"

definition fallback_attempt :: "host \<Rightarrow> request list \<Rightarrow> request \<Rightarrow> exn + jsval" where
  "fallback_attempt h log req =
     (case fetch h log req of
        Rejected e \<Rightarrow> Inl e
      | Resolved r \<Rightarrow> if \<not> ok r then Inl (fallback_error h r) else json r)"

text \<open>\<^verbatim>\<open>err2.message || err.message || 'Network error'\<close>\<close>

definition final_message :: "exn \<Rightarrow> exn \<Rightarrow> string" where
  "final_message err err2 =
     (if exn_message err2 \<noteq> [] then exn_message err2
      else if exn_message err \<noteq> [] then exn_message err
      else ''Network error'')"

definition callLLM :: "host \<Rightarrow> app_state \<Rightarrow> conversation \<Rightarrow> (exn + jsval) \<times> app_state" where
  "callLLM h st conv =
     (let msgs = messagesForApi h conv; s = settings st in
      if provider s = [] then (Inl (Error ''No LLM provider configured.''), st)
      else if apiKey s = [] then (Inr demo_response, st)
      else if provider s \<noteq> ''aipipe''
        then (Inl (Error ''Only AI Pipe is supported in this build. (Provider forced to AI Pipe)''), st)
      else
        let req = request_to ''/openrouter/v1/chat/completions'' s msgs;
            st1 = st\<lparr>requests := requests st @ [req]\<rparr>
        in case primary_attempt h (requests st) req of
             Inr data \<Rightarrow> (Inr data, st1)
           | Inl err \<Rightarrow>
               (let req2 = request_to ''/openai/v1/chat/completions'' s msgs;
                    st2 = st1\<lparr>requests := requests st1 @ [req2]\<rparr>
                in case fallback_attempt h (requests st1) req2 of
                     Inr data \<Rightarrow> (Inr data, st2)
                   | Inl err2 \<Rightarrow> (Inl (Error (final_message err err2)), st2)))"


section \<open>Tools\<close>

text \<open>\<^verbatim>\<open>initializeTools\<close>: the registry of the tools that the agent declares.\<close>

record tool =
  fn_name :: string
  description :: string
  parameters :: jsval

definition schema :: "(string \<times> jsval) list \<Rightarrow> string \<Rightarrow> jsval" where
  "schema props req =
     JObj [(''type'', JStr ''object''), (''properties'', JObj props),
           (''required'', JArr [JStr req])]"

definition initializeTools :: "tool list" where
  "initializeTools =
     [\<lparr>fn_name = ''web_search'', description = ''Search the web for current information'',
       parameters = schema
         [(''query'', JObj [(''type'', JStr ''string'')]),
          (''results'', JObj [(''type'', JStr ''integer''), (''default'', JNum ''5'')])]
         ''query''\<rparr>,
      \<lparr>fn_name = ''execute_code'', description = ''Execute JavaScript code safely'',
       parameters = schema [(''code'', JObj [(''type'', JStr ''string'')])] ''code''\<rparr>,
      \<lparr>fn_name = ''process_file'', description = ''Process and analyze uploaded files'',
       parameters = schema
         [(''fileId'', JObj [(''type'', JStr ''string'')]),
          (''operation'', JObj [(''type'', JStr ''string''), (''default'', JStr ''analyze'')])]
         ''fileId''\<rparr>,
      \<lparr>fn_name = ''create_visualization'', description = ''Create data visualizations'',
       parameters = schema
         [(''data'', JObj [(''type'', JStr ''string'')]),
          (''type'', JObj [(''type'', JStr ''string''), (''default'', JStr ''line'')]),
          (''title'', JObj [(''type'', JStr ''string'')])]
         ''data''\<rparr>]"

text \<open>
  The four stubs. Each destructures its argument, which throws a TypeError on
  \<^verbatim>\<open>undefined\<close> and \<^verbatim>\<open>null\<close> (as \<open>get\<close> does; the engine words the message of
  that error differently, and only the text of a diagnostic shows it), and prints the
  properties into a template literal.
\<close>

definition executeWebSearch :: "jsval \<Rightarrow> exn + jsval" where
  "executeWebSearch args =
     bind (get args ''query'') (\<lambda>query.
     bind (get args ''results'') (\<lambda>results.
     bind (ToString query) (\<lambda>q.
       Inr (JObj [(''status'', JStr (''Simulated search for: '' @ q)), (''items'', JArr [])]))))"

definition executeCode :: "jsval \<Rightarrow> exn + jsval" where
  "executeCode args =
     bind (get args ''code'') (\<lambda>code.
     bind (ToString code) (\<lambda>c.
       Inr (JObj [(''output'', JStr (''Simulated execution of: '' @ c))])))"

definition processFile :: "jsval \<Rightarrow> exn + jsval" where
  "processFile args =
     bind (get args ''fileId'') (\<lambda>fileId.
     bind (get args ''operation'') (\<lambda>operation.
     bind (ToString operation) (\<lambda>oper.
     bind (ToString fileId) (\<lambda>f.
       Inr (JObj [(''result'', JStr (''Simulated '' @ oper @ '' on file '' @ f))])))))"

definition createVisualization :: "jsval \<Rightarrow> exn + jsval" where
  "createVisualization args =
     bind (get args ''data'') (\<lambda>data.
     bind (get args ''type'') (\<lambda>type.
     bind (get args ''title'') (\<lambda>title.
     bind (ToString type) (\<lambda>ty.
     bind (ToString title) (\<lambda>ti.
       Inr (JObj [(''chartUrl'',
                   JStr (''Simulated '' @ ty @ '' chart titled '' @ [CHR 0x22] @ ti @ [CHR 0x22]))]))))))"

text \<open>
  \<^verbatim>\<open>executeTool\<close>. The arguments are read from \<^verbatim>\<open>toolCall.arguments\<close> inside a
  \<^verbatim>\<open>try\<close> whose \<^verbatim>\<open>catch\<close> resets them to the empty object.
\<close>

definition tool_arguments :: "host \<Rightarrow> jsval \<Rightarrow> jsval" where
  "tool_arguments h toolCall =
     (case get toolCall ''arguments'' of
        Inl e \<Rightarrow> JObj []
      | Inr a \<Rightarrow>
          if truthy a
          then (case a of
                  JStr s \<Rightarrow> (case JSON_parse h s of Inl e \<Rightarrow> JObj [] | Inr v \<Rightarrow> v)
                | _ \<Rightarrow> a)
          else JObj [])"

text \<open>The \<^verbatim>\<open>switch\<close> on the tool name.\<close>

definition run_tool :: "jsval \<Rightarrow> jsval \<Rightarrow> exn + jsval" where
  "run_tool name args =
     (if name = JStr ''web_search'' then executeWebSearch args
      else if name = JStr ''execute_code'' then executeCode args
      else if name = JStr ''process_file'' then processFile args
      else if name = JStr ''create_visualization'' then createVisualization args
      else bind (ToString name) (\<lambda>n. Inr (JObj [(''error'', JStr (''Unknown tool: '' @ n))])))"

definition executeTool :: "host \<Rightarrow> app_state \<Rightarrow> jsval \<Rightarrow> (exn + jsval) \<times> app_state" where
  "executeTool h st toolCall =
     (case get toolCall ''function'' of
        Inl e \<Rightarrow> (Inl e, st)
      | Inr f \<Rightarrow>
          (let func = js_or f (JObj []);
               name = js_or (get_opt func ''name'') (JStr ''unknown'');
               args = tool_arguments h toolCall
           in case ToString name of
                Inl e \<Rightarrow> (Inl e, st)
              | Inr n \<Rightarrow>
                  (run_tool name args,
                   addMessage ''system'' (JStr (''Executing tool: '' @ n))
                     (currentConversationId st) st)))"

section \<open>Tool dispatch\<close>

text \<open>
  \<^verbatim>\<open>Promise.all(response.tool_calls.map(tc => this.executeTool(tc)))\<close>. The \<^verbatim>\<open>map\<close>
  starts every invocation in request order; each runs up to its first \<^verbatim>\<open>await\<close>,
  which comes after its \<^verbatim>\<open>addMessage\<close>. \<^verbatim>\<open>Promise.all\<close> fulfils with the values in
  request order when every promise fulfils, and rejects when any promise rejects.
\<close>

fun start_all :: "host \<Rightarrow> app_state \<Rightarrow> jsval list \<Rightarrow> (exn + jsval) list \<times> app_state" where
  "start_all h st [] = ([], st)"
| "start_all h st (tc # tcs) =
     (let (p, st1) = executeTool h st tc;
          (ps, st2) = start_all h st1 tcs
      in (p # ps, st2))"

fun reasons :: "(exn + 'a) list \<Rightarrow> exn list" where
  "reasons [] = []"
| "reasons (Inl e # ps) = e # reasons ps"
| "reasons (Inr v # ps) = reasons ps"

fun fulfilled :: "(exn + 'a) list \<Rightarrow> 'a list" where
  "fulfilled [] = []"
| "fulfilled (Inl e # ps) = fulfilled ps"
| "fulfilled (Inr v # ps) = v # fulfilled ps"

definition Promise_all :: "host \<Rightarrow> (exn + 'a) list \<Rightarrow> exn + 'a list" where
  "Promise_all h ps =
     (if reasons ps = [] then Inr (fulfilled ps) else Inl (first_rejected h (reasons ps)))"

definition dispatchAll :: "host \<Rightarrow> app_state \<Rightarrow> jsval list \<Rightarrow> (exn + jsval list) \<times> app_state" where
  "dispatchAll h st tcs = (let (ps, st1) = start_all h st tcs in (Promise_all h ps, st1))"


section \<open>Agent loop\<close>

text \<open>\<^verbatim>\<open>conversation.messages.push(m)\<close> on the conversation that the loop holds.\<close>

definition push_message :: "string \<Rightarrow> message \<Rightarrow> app_state \<Rightarrow> app_state" where
  "push_message cid m st =
     (case conversations st cid of
        None \<Rightarrow> st
      | Some conv \<Rightarrow>
          st\<lparr>conversations := (conversations st)(cid \<mapsto> conv\<lparr>messages := messages conv @ [m]\<rparr>)\<rparr>)"

text \<open>
  \<^verbatim>\<open>toolResults.forEach((result, index) => ...)\<close>, over the requests paired with their
  results: a tool message is pushed, and the same text is added once more through
  \<^verbatim>\<open>addMessage\<close>.
\<close>

fun append_results :: "host \<Rightarrow> string \<Rightarrow> (jsval \<times> jsval) list \<Rightarrow> app_state \<Rightarrow> (exn + unit) \<times> app_state" where
  "append_results h cid [] st = (Inr (), st)"
| "append_results h cid ((tc, result) # rest) st =
     (case bind (get tc ''id'') (\<lambda>i.
           bind (get tc ''function'') (\<lambda>f.
           bind (get f ''name'') (\<lambda>n. Inr (i, n)))) of
        Inl e \<Rightarrow> (Inl e, st)
      | Inr (i, n) \<Rightarrow>
          (let c = stringify h result;
               st1 = push_message cid
                       \<lparr>role = ''tool'', content = c, tool_calls = Undefined,
                        tool_call_id = i, tool_name = n\<rparr> st;
               st2 = addMessage ''tool'' c (Some cid) st1
           in append_results h cid rest st2))"

text \<open>
  The loop as the state machine of the specification: an iteration enters
  \<open>AWAIT_MODEL\<close> when it calls the model and \<open>DISPATCH_TOOLS\<close> when it enters the
  branch of the tool calls; the loop ends in \<open>TERMINATED\<close>. The phases are recorded
  beside the state, so that the model calls of an invocation can be counted. An
  iteration either goes round again (after a tool dispatch) or leaves the loop. The time
  measurements around the model call (\<^verbatim>\<open>performance.now\<close>, \<^verbatim>\<open>performance.measure\<close>) and
  the refresh of the performance display are not modelled.
\<close>

datatype phase = AWAIT_MODEL | DISPATCH_TOOLS | TERMINATED

datatype outcome = Continue | Break

definition requests_tools :: "model_response \<Rightarrow> bool" where
  "requests_tools r = (case response_tool_calls r of None \<Rightarrow> False | Some tcs \<Rightarrow> tcs \<noteq> [])"

text \<open>
  The \<^verbatim>\<open>try\<close> body from the normalised response on: \<open>Inl\<close> is an exception that
  reaches the \<^verbatim>\<open>catch\<close>, with the state as it was when thrown.
\<close>

definition handle_response :: "host \<Rightarrow> string \<Rightarrow> model_response \<Rightarrow> app_state \<Rightarrow> (exn + outcome) \<times> app_state" where
  "handle_response h cid r st =
     (let st1 = (if truthy (response_content r)
                 then addMessage ''assistant'' (response_content r) (Some cid) st else st)
      in if \<not> requests_tools r then (Inr Break, st1)
         else
           (let tcs = (case response_tool_calls r of None \<Rightarrow> [] | Some ts \<Rightarrow> ts) in
            case bind (sequence (map (\<lambda>tc. bind (get tc ''function'') (\<lambda>f. get f ''name'')) tcs))
                   (join '', '') of
              Inl e \<Rightarrow> (Inl e, st1)
            | Inr names \<Rightarrow>
                (let st2 = addMessage ''assistant'' (JStr (''Using tools: '' @ names)) (Some cid) st1;
                     st3 = push_message cid
                             \<lparr>role = ''assistant'', content = Null, tool_calls = JArr tcs,
                              tool_call_id = Undefined, tool_name = Undefined\<rparr> st2;
                     (res, st4) = dispatchAll h st3 tcs
                 in case res of
                      Inl e \<Rightarrow> (Inl e, st4)
                    | Inr toolResults \<Rightarrow>
                        (case append_results h cid (zip tcs toolResults) st4 of
                           (Inl e, st5) \<Rightarrow> (Inl e, st5)
                         | (Inr u, st5) \<Rightarrow> (Inr Continue, st5)))))"

text \<open>The \<^verbatim>\<open>catch\<close> block: \<^verbatim>\<open>${err.message || err}\<close> prints the name of an error without message.\<close>

definition on_error :: "exn \<Rightarrow> string \<Rightarrow> app_state \<Rightarrow> app_state" where
  "on_error err cid st =
     addMessage ''system''
       (JStr (''Agent iteration error: '' @
              (if exn_message err \<noteq> [] then exn_message err else exn_name err)))
       (Some cid) st"

text \<open>
  One pass through the body of the \<^verbatim>\<open>while\<close> loop, for a given response normaliser:
  the phases entered, whether the loop goes on, and the state. The loop holds the
  conversation object that \<^verbatim>\<open>agentLoop\<close> found under \<open>cid\<close>; no step removes it from
  the map, so the case \<open>None\<close> is not taken in a loop that \<^verbatim>\<open>agentLoop\<close> started.
\<close>

type_synonym normalizer = "jsval \<Rightarrow> string \<Rightarrow> exn + model_response"

definition iteration :: "normalizer \<Rightarrow> host \<Rightarrow> string \<Rightarrow> app_state \<Rightarrow> phase list \<times> outcome \<times> app_state" where
  "iteration norm h cid st =
     (case conversations st cid of
        None \<Rightarrow> ([AWAIT_MODEL], Break, st)
      | Some conv \<Rightarrow>
          (case callLLM h st conv of
             (Inl e, st1) \<Rightarrow> ([AWAIT_MODEL], Break, on_error e cid st1)
           | (Inr responseData, st1) \<Rightarrow>
               (let st2 = st1\<lparr>apiCalls := apiCalls st1 + 1\<rparr> in
                case norm responseData (provider (settings st2)) of
                  Inl e \<Rightarrow> ([AWAIT_MODEL], Break, on_error e cid st2)
                | Inr r \<Rightarrow>
                    (let ps = (if requests_tools r then [AWAIT_MODEL, DISPATCH_TOOLS]
                               else [AWAIT_MODEL])
                     in case handle_response h cid r st2 of
                          (Inl e, st3) \<Rightarrow> (ps, Break, on_error e cid st3)
                        | (Inr oc, st3) \<Rightarrow> (ps, oc, st3)))))"

text \<open>\<^verbatim>\<open>while (maxTurns-- > 0)\<close>, by recursion on the turns that are left.\<close>

fun loop :: "normalizer \<Rightarrow> host \<Rightarrow> string \<Rightarrow> nat \<Rightarrow> app_state \<Rightarrow> phase list \<times> app_state" where
  "loop norm h cid 0 st = ([TERMINATED], st)"
| "loop norm h cid (Suc maxTurns) st =
     (case iteration norm h cid st of
        (ps, Break, st1) \<Rightarrow> (ps @ [TERMINATED], st1)
      | (ps, Continue, st1) \<Rightarrow>
          (let (tr, st2) = loop norm h cid maxTurns st1 in (ps @ tr, st2)))"

text \<open>
  \<^verbatim>\<open>agentLoop\<close>, for a given normaliser, and as the program has it, with
  \<^verbatim>\<open>parseAPIResponse\<close>. Without a conversation it returns at once.
\<close>

definition agentLoop_with :: "normalizer \<Rightarrow> host \<Rightarrow> string \<Rightarrow> app_state \<Rightarrow> phase list \<times> app_state" where
  "agentLoop_with norm h conversationId st =
     (case conversations st conversationId of
        None \<Rightarrow> ([], st)
      | Some conv \<Rightarrow> loop norm h conversationId 5 st)"

definition agentLoop :: "host \<Rightarrow> string \<Rightarrow> app_state \<Rightarrow> phase list \<times> app_state" where
  "agentLoop = agentLoop_with parseAPIResponse"

section \<open>Scripted hosts\<close>

text \<open>
  Concrete hosts, settings and states, on which the model is run below. The scripted
  network answers the n-th request with the n-th answer of a list. \<open>encode\<close>
  writes a value as JSON text (quotes and backslashes escaped; the examples hold no
  control characters). \<open>example_parse\<close> decodes the argument texts that the examples
  use: \<^verbatim>\<open>null\<close> and \<^verbatim>\<open>{}\<close>; on the malformed \<^verbatim>\<open>{not json\<close> it throws, as
  \<^verbatim>\<open>JSON.parse\<close> does.
\<close>

definition quote :: "string \<Rightarrow> string" where
  "quote s =
     [CHR 0x22] @
     concat (map (\<lambda>c. if c = CHR 0x22 \<or> c = CHR 0x5C then [CHR 0x5C, c] else [c]) s) @
     [CHR 0x22]"

fun encode :: "jsval \<Rightarrow> string" where
  "encode Undefined = ''null''"
| "encode Null = ''null''"
| "encode (JBool b) = (if b then ''true'' else ''false'')"
| "encode (JNum s) = s"
| "encode (JStr s) = quote s"
| "encode (JArr xs) = ''['' @ intercalate '','' (map encode xs) @ '']''"
| "encode (JObj kvs) =
     ''{'' @ intercalate '',''
              (map (\<lambda>kv. quote (fst kv) @ '':'' @ encode (snd kv))
                 (filter (\<lambda>kv. snd kv \<noteq> Undefined) kvs)) @ ''}''"

definition example_parse :: "string \<Rightarrow> exn + jsval" where
  "example_parse s =
     (if s = ''null'' then Inr Null
      else if s = ''{}'' then Inr (JObj [])
      else Inl (Exn ''SyntaxError'' ''Unexpected token''))"

definition scripted_host :: "fetch_result list \<Rightarrow> host" where
  "scripted_host answers =
     \<lparr>JSON_parse = example_parse,
      JSON_stringify = encode,
      fetch = (\<lambda>log req. if length log < length answers then answers ! length log
                         else Rejected (TypeError ''Failed to fetch'')),
      first_rejected = (\<lambda>es. case es of [] \<Rightarrow> Error [] | e # rest \<Rightarrow> e)\<rparr>"

definition example_settings :: llm_settings where
  "example_settings =
     \<lparr>provider = ''aipipe'', apiKey = ''token'', model = [], maxTokens = JNum ''2000'',
      temperature = JNum ''0.7'', baseUrl = ''https://aipipe.org''\<rparr>"

definition example_conversation :: conversation where
  "example_conversation =
     \<lparr>title = ''New Conversation'', preview = ''...'',
      messages = [ui_message ''user'' (JStr ''IBM'')]\<rparr>"

definition example_state :: app_state where
  "example_state =
     \<lparr>conversations = [''conv_1'' \<mapsto> example_conversation],
      currentConversationId = Some ''conv_1'', settings = example_settings,
      apiCalls = 0, requests = []\<rparr>"

definition http :: "nat \<Rightarrow> string \<Rightarrow> jsval \<Rightarrow> fetch_result" where
  "http code text data = Resolved \<lparr>status = code, statusText = text, json = Inr data\<rparr>"

definition chat_completion :: "jsval \<Rightarrow> jsval" where
  "chat_completion msg = JObj [(''choices'', JArr [JObj [(''message'', msg)]])]"

definition tool_call :: "string \<Rightarrow> string \<Rightarrow> string \<Rightarrow> jsval" where
  "tool_call i n a =
     JObj [(''id'', JStr i), (''type'', JStr ''function''),
           (''function'', JObj [(''name'', JStr n)]), (''arguments'', JStr a)]"

definition tool_call_message :: jsval where
  "tool_call_message =
     JObj [(''content'', Null),
           (''tool_calls'', JArr [tool_call ''call_1'' ''web_search'' ''{}''])]"

text \<open>Tool-call requests.\<close>

definition malformed_call :: jsval where
  "malformed_call = tool_call ''call_1'' ''web_search'' ''{not json''"

definition null_arguments_call :: jsval where
  "null_arguments_call = tool_call ''call_1'' ''web_search'' ''null''"

definition two_calls :: "jsval list" where
  "two_calls = [tool_call ''call_1'' ''web_search'' ''{}'', tool_call ''call_2'' ''nope'' ''{}'']"

definition unknown_tool_message :: jsval where
  "unknown_tool_message =
     JObj [(''content'', Null), (''tool_calls'', JArr [tool_call ''call_1'' ''nope'' ''{}''])]"

definition empty_completion :: jsval where
  "empty_completion =
     chat_completion (JObj [(''role'', JStr ''assistant''), (''content'', JStr [])])"

definition plain_completion :: jsval where
  "plain_completion =
     chat_completion
       (JObj [(''role'', JStr ''assistant''), (''content'', JStr ''IBM is a tech company'')])"

text \<open>
  A normaliser that differs from \<^verbatim>\<open>parseAPIResponse\<close> in one respect: it keeps the
  \<^verbatim>\<open>tool_calls\<close> array of a chat completion. It serves to run the dispatch branch of
  the loop from a model response.
\<close>

definition keeping_tool_calls :: normalizer where
  "keeping_tool_calls data prov =
     bind (parseAPIResponse data prov) (\<lambda>r.
       Inr (r\<lparr>response_tool_calls :=
                (case get_opt (get_opt (get_opt (get_opt data ''choices'') ''0'') ''message'')
                        ''tool_calls'' of
                   JArr tcs \<Rightarrow> Some tcs
                 | _ \<Rightarrow> None)\<rparr>))"

text \<open>
  A model that asks for the unregistered tool \<^verbatim>\<open>nope\<close> on every call, and one that
  asks for a search with the arguments \<^verbatim>\<open>null\<close> next to it.
\<close>

definition always_tools :: host where
  "always_tools =
     (scripted_host [])
       \<lparr>fetch := (\<lambda>log req. http 200 ''OK'' (chat_completion unknown_tool_message))\<rparr>"

definition raising_batch :: "jsval list" where
  "raising_batch =
     [null_arguments_call, tool_call ''call_2'' ''nope'' ''{}'']"

definition raising_tools :: host where
  "raising_tools =
     (scripted_host [])
       \<lparr>fetch := (\<lambda>log req. http 200 ''OK''
          (chat_completion (JObj [(''content'', Null), (''tool_calls'', JArr raising_batch)])))\<rparr>"

text \<open>A completion whose content is an array of parts, and a model that asks for two tools.\<close>

definition parts_completion :: jsval where
  "parts_completion =
     chat_completion
       (JObj [(''role'', JStr ''assistant''),
              (''content'', JArr [JObj [(''type'', JStr ''text''), (''text'', JStr ''hi'')]])])"

definition search_payload :: jsval where
  "search_payload =
     JObj [(''status'', JStr ''Simulated search for: undefined''), (''items'', JArr [])]"

definition two_tools :: host where
  "two_tools =
     (scripted_host [])
       \<lparr>fetch := (\<lambda>log req. http 200 ''OK''
          (chat_completion (JObj [(''content'', Null), (''tool_calls'', JArr two_calls)])))\<rparr>"

definition unnamed_call :: jsval where
  "unnamed_call =
     JObj [(''id'', JStr ''call_3''), (''type'', JStr ''function''), (''function'', JObj [])]"

text \<open>Settings without an API key, and without provider and key.\<close>

definition no_key_state :: app_state where
  "no_key_state = example_state\<lparr>settings := example_settings\<lparr>apiKey := []\<rparr>\<rparr>"

definition unconfigured_state :: app_state where
  "unconfigured_state =
     example_state\<lparr>settings := example_settings\<lparr>provider := [], apiKey := []\<rparr>\<rparr>"

text \<open>Answers of the network, and hosts scripted with them.\<close>

definition not_json :: "nat \<Rightarrow> string \<Rightarrow> fetch_result" where
  "not_json code text =
     Resolved \<lparr>status = code, statusText = text,
               json = Inl (Exn ''SyntaxError'' ''Unexpected token'')\<rparr>"

definition error_body :: "string \<Rightarrow> jsval" where
  "error_body m = JObj [(''error'', JObj [(''message'', JStr m)])]"

definition primary_url :: string where
  "primary_url = ''https://aipipe.org/openrouter/v1/chat/completions''"

definition fallback_url :: string where
  "fallback_url = ''https://aipipe.org/openai/v1/chat/completions''"

definition healthy_primary :: host where
  "healthy_primary = scripted_host [http 200 ''OK'' plain_completion]"

definition failing_primary :: host where
  "failing_primary =
     scripted_host [http 500 ''Internal Server Error'' (error_body ''boom''),
                    http 200 ''OK'' plain_completion]"

definition garbled_primary :: host where
  "garbled_primary = scripted_host [not_json 200 ''OK'', http 200 ''OK'' plain_completion]"

definition both_fail :: host where
  "both_fail =
     scripted_host [http 401 ''Unauthorized'' (error_body ''Invalid token''),
                    http 500 ''Internal Server Error'' (error_body ''upstream down'')]"

definition fallback_unreachable :: host where
  "fallback_unreachable =
     scripted_host [http 401 ''Unauthorized'' (error_body ''Invalid token''),
                    Rejected (TypeError [])]"

section \<open>Observations on the state\<close>

text \<open>The tool-role messages of a conversation, and what no step of the loop changes.\<close>

definition tool_messages :: "app_state \<Rightarrow> string \<Rightarrow> message list" where
  "tool_messages st cid =
     (case conversations st cid of
        None \<Rightarrow> []
      | Some conv \<Rightarrow> filter (\<lambda>m. role m = ''tool'') (messages conv))"

definition same_frame :: "app_state \<Rightarrow> app_state \<Rightarrow> bool" where
  "same_frame st st' =
     (settings st' = settings st \<and> currentConversationId st' = currentConversationId st \<and>
      dom (conversations st') = dom (conversations st))"

text \<open>\<^verbatim>\<open>typeof v === 'string'\<close>\<close>

definition is_text :: "jsval \<Rightarrow> bool" where
  "is_text v = (case v of JStr s \<Rightarrow> True | _ \<Rightarrow> False)"

text \<open>
  The values that a payload holds where \<^verbatim>\<open>parseAPIResponse\<close> looks for content:
  \<^verbatim>\<open>choices[0].message.content\<close>, \<^verbatim>\<open>choices[0].text\<close>, \<^verbatim>\<open>candidates[0].content.parts\<close>
  and \<^verbatim>\<open>candidates[0].content\<close>.
\<close>

definition upstream_contents :: "jsval \<Rightarrow> jsval list" where
  "upstream_contents data =
     (let c0 = get_opt (get_opt data ''choices'') ''0'';
          msg = js_or (get_opt c0 ''message'') (JObj []);
          ct = get_opt (get_opt (get_opt data ''candidates'') ''0'') ''content''
      in [get_opt msg ''content'', get_opt c0 ''text'', get_opt ct ''parts'', ct])"

text \<open>The two messages that the loop appends for the result of a request.\<close>

definition tool_result_messages :: "host \<Rightarrow> jsval \<Rightarrow> jsval \<Rightarrow> message list" where
  "tool_result_messages h tc result =
     [\<lparr>role = ''tool'', content = stringify h result, tool_calls = Undefined,
       tool_call_id = get_opt tc ''id'',
       tool_name = get_opt (get_opt tc ''function'') ''name''\<rparr>,
      ui_message ''tool'' (stringify h result)]"

section \<open>The normaliser never yields tool calls\<close>

lemma parse_choices_no_tools: "parse_choices d = Inr r \<Longrightarrow> response_tool_calls r = None"
  by (auto simp: parse_choices_def bind_def no_tools_def Let_def split: sum.splits)

lemma parse_candidates_no_tools: "parse_candidates d = Inr r \<Longrightarrow> response_tool_calls r = None"
  by (auto simp: parse_candidates_def bind_def no_tools_def Let_def split: sum.splits jsval.splits)

lemma parse_body_no_tools: "parse_body d = Inr r \<Longrightarrow> response_tool_calls r = None"
  by (auto simp: parse_body_def no_tools_def split: if_splits
      dest: parse_choices_no_tools parse_candidates_no_tools)

lemma parseAPIResponse_no_tools: "parseAPIResponse d p = Inr r \<Longrightarrow> response_tool_calls r = None"
  by (auto simp: parseAPIResponse_def split: sum.splits dest: parse_body_no_tools)

lemma handle_response_no_tools:
  "\<not> requests_tools r \<Longrightarrow> fst (handle_response h cid r st) = Inr Break"
  by (simp add: handle_response_def Let_def)

lemma iteration_parseAPIResponse:
  "fst (iteration parseAPIResponse h cid st) = [AWAIT_MODEL] \<and>
   fst (snd (iteration parseAPIResponse h cid st)) = Break"
proof (cases "conversations st cid")
  case None
  then show ?thesis by (simp add: iteration_def)
next
  case (Some conv)
  show ?thesis
  proof (cases "callLLM h st conv")
    case (Pair res st1)
    let ?st2 = "st1\<lparr>apiCalls := apiCalls st1 + 1\<rparr>"
    show ?thesis
    proof (cases res)
      case (Inl e)
      with Some Pair show ?thesis by (simp add: iteration_def)
    next
      case (Inr d)
      show ?thesis
      proof (cases "parseAPIResponse d (provider (settings ?st2))")
        case (Inl e)
        with Some Pair Inr show ?thesis by (simp add: iteration_def Let_def)
      next
        case r: (Inr r)
        then have nt: "\<not> requests_tools r"
          by (auto simp: requests_tools_def dest: parseAPIResponse_no_tools)
        obtain res' st3 where hr: "handle_response h cid r ?st2 = (res', st3)"
          by (cases "handle_response h cid r ?st2")
        with handle_response_no_tools[OF nt, of h cid ?st2]
        have "res' = Inr Break" by simp
        with Some Pair Inr r nt hr show ?thesis by (simp add: iteration_def Let_def)
      qed
    qed
  qed
qed

lemma loop_parseAPIResponse:
  "fst (loop parseAPIResponse h cid (Suc n) st) = [AWAIT_MODEL, TERMINATED]"
  using iteration_parseAPIResponse[of h cid st]
  by (cases "iteration parseAPIResponse h cid st") (auto split: outcome.splits)

lemma js_or_cases: "js_or a b = a \<and> truthy a \<or> js_or a b = b \<and> \<not> truthy a"
  by (simp add: js_or_def)

lemma parse_choices_content:
  assumes "parse_choices data = Inr r"
  shows "is_text (response_content r) \<or>
         (truthy (response_content r) \<and> response_content r \<in> set (upstream_contents data))"
proof -
  from assms obtain choices c0 m mc t where
    g: "get data ''choices'' = Inr choices" "get choices ''0'' = Inr c0"
       "get c0 ''message'' = Inr m" "get (js_or m (JObj [])) ''content'' = Inr mc"
       "get c0 ''text'' = Inr t"
    and r: "r = no_tools (js_or mc (js_or t (JStr [])))"
    by (auto simp: parse_choices_def bind_def Let_def split: sum.splits)
  have u: "mc \<in> set (upstream_contents data)" "t \<in> set (upstream_contents data)"
    using g by (simp_all add: upstream_contents_def get_opt_def Let_def)
  show ?thesis
    using js_or_cases[of mc "js_or t (JStr [])"] js_or_cases[of t "JStr []"] u r
    by (auto simp: no_tools_def is_text_def)
qed

lemma parse_candidates_content:
  assumes "parse_candidates data = Inr r"
  shows "is_text (response_content r) \<or>
         (truthy (response_content r) \<and> response_content r \<in> set (upstream_contents data))"
proof -
  from assms obtain cands c0 ct where
    g: "get data ''candidates'' = Inr cands" "get cands ''0'' = Inr c0"
       "get c0 ''content'' = Inr ct"
    and body: "(case js_or (get_opt ct ''parts'') (js_or ct (JArr [])) of
         JArr ps \<Rightarrow>
           bind (sequence (map (\<lambda>p. bind (get p ''text'') (\<lambda>t. Inr (js_or t p))) ps)) (\<lambda>qs.
           bind (join [] qs) (\<lambda>text.
             Inr (no_tools (JStr text))))
       | _ \<Rightarrow> Inr (no_tools (js_or (get_opt ct ''parts'') (js_or ct (JArr []))))) = Inr r"
    by (auto simp: parse_candidates_def bind_def Let_def split: sum.splits)
  let ?parts = "js_or (get_opt ct ''parts'') (js_or ct (JArr []))"
  have u: "get_opt ct ''parts'' \<in> set (upstream_contents data)" "ct \<in> set (upstream_contents data)"
    using g by (simp_all add: upstream_contents_def get_opt_def Let_def)
  show ?thesis
  proof (cases "\<exists>ps. ?parts = JArr ps")
    case True
    then obtain ps where ps: "?parts = JArr ps" by blast
    with body show ?thesis
      by (auto simp: bind_def no_tools_def is_text_def split: sum.splits)
  next
    case False
    then have r: "r = no_tools ?parts" using body by (cases ?parts) auto
    have "?parts = get_opt ct ''parts'' \<and> truthy (get_opt ct ''parts'') \<or>
          ?parts = ct \<and> truthy ct"
      using js_or_cases[of "get_opt ct ''parts''" "js_or ct (JArr [])"] js_or_cases[of ct "JArr []"] False
      by auto
    with u r show ?thesis by (auto simp: no_tools_def)
  qed
qed

lemma parseAPIResponse_content:
  assumes "parseAPIResponse data prov = Inr r"
  shows "is_text (response_content r) \<or>
         (truthy (response_content r) \<and> response_content r \<in> set (upstream_contents data))"
proof -
  from assms have b: "parse_body data = Inr r"
    by (auto simp: parseAPIResponse_def split: sum.splits)
  show ?thesis
  proof (cases "truthy (get_opt (get_opt data ''choices'') ''length'')")
    case True
    with b parse_choices_content[of data r] show ?thesis by (simp add: parse_body_def)
  next
    case False
    show ?thesis
    proof (cases "truthy (get_opt (get_opt data ''candidates'') ''length'')")
      case True
      with False b parse_candidates_content[of data r] show ?thesis by (simp add: parse_body_def)
    next
      case f2: False
      with False b show ?thesis
        by (cases data) (auto simp: parse_body_def no_tools_def is_text_def)
    qed
  qed
qed

text \<open>
  Claim C1, as amended. Whatever payload \<^verbatim>\<open>parseAPIResponse\<close> is given, a result that it
  returns holds the content and no tool-call list. The content is a string, or else it
  is the truthy value, not a string, that the payload holds in one of the places where
  the normaliser looks for content, passed on as it is. So \<^verbatim>\<open>agentLoop\<close> never enters the
  tool-dispatch branch and leaves the loop after its first model call: the phases of an
  invocation on an existing conversation are one \<open>AWAIT_MODEL\<close>, then \<open>TERMINATED\<close>
  (and none at all when the conversation is unknown).
\<close>

theorem agentLoop_never_dispatches:
  "(parseAPIResponse data prov = Inr r \<longrightarrow>
      r = \<lparr>response_content = response_content r, response_tool_calls = None\<rparr>
      \<and> (is_text (response_content r) \<or>
           (truthy (response_content r) \<and> response_content r \<in> set (upstream_contents data))))
   \<and> fst (agentLoop h cid st) =
       (if conversations st cid = None then [] else [AWAIT_MODEL, TERMINATED])"
proof -
  have "fst (loop parseAPIResponse h cid 5 st) = [AWAIT_MODEL, TERMINATED]"
    using loop_parseAPIResponse[of h cid 4 st] by (simp add: eval_nat_numeral)
  then show ?thesis
    using parseAPIResponse_content[of data prov r]
    by (auto simp: agentLoop_def agentLoop_with_def dest: parseAPIResponse_no_tools)
qed

lemma parse_tool_call_message:
  "parseAPIResponse (chat_completion tool_call_message) ''aipipe'' = Inr (no_tools (JStr []))"
  by code_simp

text \<open>
  An upstream response that asks for \<^verbatim>\<open>web_search\<close>: the normalised result has lost the
  request, its content is the empty string, and the loop stops after one model call.
\<close>

theorem agentLoop_never_dispatches_witness:
  "parseAPIResponse (chat_completion tool_call_message) ''aipipe'' = Inr (no_tools (JStr []))
   \<and> no_tools (JStr []) = \<lparr>response_content = JStr [], response_tool_calls = None\<rparr>
   \<and> is_text (response_content (no_tools (JStr [])))
   \<and> fst (agentLoop (scripted_host [http 200 ''OK'' (chat_completion tool_call_message)])
            ''conv_1'' example_state) = [AWAIT_MODEL, TERMINATED]"
  using agentLoop_never_dispatches[of "chat_completion tool_call_message" "''aipipe''"
      "no_tools (JStr [])" "scripted_host [http 200 ''OK'' (chat_completion tool_call_message)]"
      "''conv_1''" example_state]
  by (simp add: parse_tool_call_message no_tools_def is_text_def example_state_def)

text \<open>
  The claim as stated fails on a completion whose content is an array of parts: the
  normalised content is that array, not a text.
\<close>

theorem parseAPIResponse_content_counterexample:
  "parseAPIResponse parts_completion ''aipipe'' =
     Inr (no_tools (JArr [JObj [(''type'', JStr ''text''), (''text'', JStr ''hi'')]]))
   \<and> \<not> is_text (JArr [JObj [(''type'', JStr ''text''), (''text'', JStr ''hi'')]])"
  by code_simp

section \<open>Turn budget\<close>

lemma iteration_one_await:
  "count_list (fst (iteration norm h cid st)) AWAIT_MODEL = 1"
  by (auto simp: iteration_def Let_def split: option.splits prod.splits sum.splits)

lemma loop_turn_budget:
  "count_list (fst (loop norm h cid n st)) AWAIT_MODEL \<le> n"
proof (induction n arbitrary: st)
  case 0
  show ?case by simp
next
  case (Suc n)
  obtain ps oc st1 where it: "iteration norm h cid st = (ps, oc, st1)"
    by (cases "iteration norm h cid st") auto
  have one: "count_list ps AWAIT_MODEL = 1"
    using iteration_one_await[of norm h cid st] it by simp
  show ?case
  proof (cases oc)
    case Break
    with it one show ?thesis by simp
  next
    case Continue
    obtain tr st2 where l: "loop norm h cid n st1 = (tr, st2)"
      by (cases "loop norm h cid n st1")
    with Suc.IH[of st1] have "count_list tr AWAIT_MODEL \<le> n" by simp
    with it one Continue l show ?thesis by simp
  qed
qed

lemma loop_terminated:
  "fst (loop norm h cid n st) \<noteq> [] \<and> last (fst (loop norm h cid n st)) = TERMINATED"
proof (induction n arbitrary: st)
  case 0
  show ?case by simp
next
  case (Suc n)
  obtain ps oc st1 where it: "iteration norm h cid st = (ps, oc, st1)"
    by (cases "iteration norm h cid st") auto
  show ?case
  proof (cases oc)
    case Break
    with it show ?thesis by simp
  next
    case Continue
    obtain tr st2 where l: "loop norm h cid n st1 = (tr, st2)"
      by (cases "loop norm h cid n st1")
    with Suc.IH[of st1] have "tr \<noteq> [] \<and> last tr = TERMINATED" by simp
    with it Continue l show ?thesis by simp
  qed
qed

text \<open>
  Claim C3. Whatever the model answers and whatever the normaliser makes of it (so also
  when every response carries tool calls), one invocation of the loop enters
  \<open>AWAIT_MODEL\<close> at most 5 times, and on an existing conversation it ends in
  \<open>TERMINATED\<close>. The loop function is total: it returns for every input. Leaving the
  loop on the exhausted budget changes nothing in the state, so no diagnostic is added.
\<close>

theorem agentLoop_turn_budget:
  "count_list (fst (agentLoop_with norm h cid st)) AWAIT_MODEL \<le> 5
   \<and> (conversations st cid \<noteq> None \<longrightarrow>
        last (fst (agentLoop_with norm h cid st)) = TERMINATED)
   \<and> loop norm h cid 0 st = ([TERMINATED], st)"
  using loop_turn_budget[of norm h cid 5 st] loop_terminated[of norm h cid 5 st]
  by (auto simp: agentLoop_with_def split: option.splits)

section \<open>A response without tool calls\<close>

lemma callLLM_frame:
  "conversations (snd (callLLM h st conv)) = conversations st \<and>
   settings (snd (callLLM h st conv)) = settings st \<and>
   currentConversationId (snd (callLLM h st conv)) = currentConversationId st"
  by (simp add: callLLM_def Let_def split: sum.splits)

lemma truthy_defined: "truthy c \<Longrightarrow> c \<noteq> Null \<and> c \<noteq> Undefined"
  by (cases c) auto

lemma addMessage_appends:
  assumes "conversations st cid = Some conv" "cid \<noteq> []" "c \<noteq> Null" "c \<noteq> Undefined"
  shows "\<exists>conv'. conversations (addMessage r c (Some cid) st) cid = Some conv' \<and>
           messages conv' = messages conv @ [ui_message r c]"
  using assms by (cases c) (auto simp: addMessage_def appended_def falsy_id_def Let_def)

lemma handle_response_plain:
  assumes "\<not> requests_tools r"
  shows "handle_response h cid r st =
           (Inr Break, if truthy (response_content r)
                       then addMessage ''assistant'' (response_content r) (Some cid) st else st)"
  using assms by (simp add: handle_response_def Let_def)

text \<open>
  Claim C8, as amended. On an existing conversation, when the model call succeeds and the
  response is normalised (it then holds no tool calls), the invocation makes that one
  model call and reaches \<open>TERMINATED\<close>; the message list gains exactly one assistant
  message, with the normalised content, when that content is truthy, and gains nothing
  when it is empty: the loop guards the append by \<^verbatim>\<open>response && response.content\<close>.
\<close>

theorem agentLoop_plain_answer:
  assumes conv: "conversations st cid = Some conv" and cid: "cid \<noteq> []"
    and call: "callLLM h st conv = (Inr data, st1)"
    and parse: "parseAPIResponse data (provider (settings st)) = Inr r"
  shows "fst (agentLoop h cid st) = [AWAIT_MODEL, TERMINATED] \<and>
         (\<exists>conv'. conversations (snd (agentLoop h cid st)) cid = Some conv' \<and>
            messages conv' =
              messages conv @
              (if truthy (response_content r)
               then [ui_message ''assistant'' (response_content r)] else []))"
proof -
  let ?st2 = "st1\<lparr>apiCalls := apiCalls st1 + 1\<rparr>"
  have fr: "conversations st1 = conversations st" "settings st1 = settings st"
    using callLLM_frame[of h st conv] call by simp_all
  have nt: "\<not> requests_tools r"
    using parse by (auto simp: requests_tools_def dest: parseAPIResponse_no_tools)
  let ?st3 = "if truthy (response_content r)
              then addMessage ''assistant'' (response_content r) (Some cid) ?st2 else ?st2"
  have it: "iteration parseAPIResponse h cid st = ([AWAIT_MODEL], Break, ?st3)"
    using conv call parse fr nt handle_response_plain[OF nt, of h cid ?st2]
    by (simp add: iteration_def Let_def)
  have run: "agentLoop h cid st = ([AWAIT_MODEL, TERMINATED], ?st3)"
    using conv it by (simp add: agentLoop_def agentLoop_with_def eval_nat_numeral)
  have c2: "conversations ?st2 cid = Some conv" using fr conv by simp
  show ?thesis
  proof (cases "truthy (response_content r)")
    case True
    with addMessage_appends[OF c2 cid, of "response_content r" "''assistant''"]
      truthy_defined[OF True]
    show ?thesis using run by simp
  next
    case False
    with run c2 show ?thesis by simp
  qed
qed

lemma plain_completion_call:
  "fst (callLLM (scripted_host [http 200 ''OK'' plain_completion]) example_state
          example_conversation) = Inr plain_completion"
  by code_simp

lemma plain_completion_parse:
  "parseAPIResponse plain_completion ''aipipe'' = Inr (no_tools (JStr ''IBM is a tech company''))"
  by code_simp

theorem agentLoop_plain_answer_witness:
  "fst (agentLoop (scripted_host [http 200 ''OK'' plain_completion]) ''conv_1'' example_state)
     = [AWAIT_MODEL, TERMINATED] \<and>
   (\<exists>conv'. conversations
              (snd (agentLoop (scripted_host [http 200 ''OK'' plain_completion]) ''conv_1''
                      example_state)) ''conv_1'' = Some conv' \<and>
      messages conv' =
        [ui_message ''user'' (JStr ''IBM''),
         ui_message ''assistant'' (JStr ''IBM is a tech company'')])"
proof -
  let ?h = "scripted_host [http 200 ''OK'' plain_completion]"
  obtain st1 where call:
    "callLLM ?h example_state example_conversation = (Inr plain_completion, st1)"
    using plain_completion_call by (cases "callLLM ?h example_state example_conversation") auto
  have conv: "conversations example_state ''conv_1'' = Some example_conversation"
    by (simp add: example_state_def)
  have p: "parseAPIResponse plain_completion (provider (settings example_state)) =
             Inr (no_tools (JStr ''IBM is a tech company''))"
    by (simp add: plain_completion_parse example_state_def example_settings_def)
  show ?thesis
    using agentLoop_plain_answer[OF conv _ call p]
    by (simp add: no_tools_def example_conversation_def)
qed

text \<open>
  The claim as stated fails on a completion whose content is the empty string (and that
  holds no tool calls): the loop terminates and the message list is what it was.
\<close>

theorem agentLoop_empty_answer_counterexample:
  "map_option messages
     (conversations
        (snd (agentLoop (scripted_host [http 200 ''OK'' empty_completion]) ''conv_1''
                example_state)) ''conv_1'')
   = Some (messages example_conversation)
   \<and> fst (agentLoop (scripted_host [http 200 ''OK'' empty_completion]) ''conv_1'' example_state)
       = [AWAIT_MODEL, TERMINATED]"
  by code_simp

section \<open>Demo mode\<close>

lemma parse_body_demo: "parse_body demo_response = Inr (no_tools (JStr demo_text))"
  by code_simp

text \<open>
  Claim C7, as amended. When a provider is configured and no API key is, \<^verbatim>\<open>callLLM\<close>
  returns the canned demo response and leaves the state as it was: no request is
  issued. The result is a value, not an exception, and it normalises to the demo text.
  (Without a provider, \<^verbatim>\<open>callLLM\<close> throws before it looks at the key.)
\<close>

theorem callLLM_demo_mode:
  assumes "provider (settings st) \<noteq> []" "apiKey (settings st) = []"
  shows "callLLM h st conv = (Inr demo_response, st) \<and>
         parseAPIResponse demo_response prov = Inr (no_tools (JStr demo_text))"
  using assms by (simp add: callLLM_def Let_def parseAPIResponse_def parse_body_demo)

theorem callLLM_demo_mode_witness:
  "provider (settings no_key_state) \<noteq> [] \<and> apiKey (settings no_key_state) = [] \<and>
   fst (callLLM (scripted_host []) no_key_state example_conversation) = Inr demo_response \<and>
   requests (snd (callLLM (scripted_host []) no_key_state example_conversation)) = [] \<and>
   parseAPIResponse demo_response ''aipipe'' = Inr (no_tools (JStr demo_text))"
proof -
  have a: "provider (settings no_key_state) \<noteq> []" "apiKey (settings no_key_state) = []"
    "requests no_key_state = []"
    by (simp_all add: no_key_state_def example_settings_def example_state_def)
  show ?thesis
    using callLLM_demo_mode[OF a(1,2), of "scripted_host []" example_conversation "''aipipe''"] a
    by simp
qed

text \<open>
  The claim as stated fails when neither provider nor key is configured: the call
  throws.
\<close>

theorem callLLM_no_provider_counterexample:
  "apiKey (settings unconfigured_state) = [] \<and>
   fst (callLLM (scripted_host []) unconfigured_state example_conversation)
     = Inl (Error ''No LLM provider configured.'')"
  by (simp add: callLLM_def unconfigured_state_def example_settings_def example_state_def Let_def)

section \<open>Endpoint fallback\<close>

lemma primary_attempt_succeeds:
  "(\<not> isl (primary_attempt h log req)) =
   (case fetch h log req of Rejected e \<Rightarrow> False | Resolved r \<Rightarrow> ok r \<and> \<not> isl (json r))"
  by (simp add: primary_attempt_def split: fetch_result.splits)

lemma url_request_to: "url (request_to path s msgs) = strip_slashes (baseUrl s) @ path"
  by (simp add: request_to_def)

text \<open>
  Claim C4, as amended. With the provider set to AI Pipe and a key configured, the
  primary request is issued. It counts as successful when it resolves with a status in
  200 to 299 and a body that decodes as JSON; then nothing else is requested. In every
  other case (the call rejects, the status is not a success, or the body of a
  successful response does not decode) exactly one more request follows: the same
  request, sent to the alternate path. \<^verbatim>\<open>callLLM\<close> throws only after that retry.
\<close>

theorem callLLM_fallback_protocol:
  assumes "provider (settings st) = ''aipipe''" "apiKey (settings st) \<noteq> []"
  shows
    "let msgs = messagesForApi h conv;
         req1 = request_to ''/openrouter/v1/chat/completions'' (settings st) msgs;
         req2 = request_to ''/openai/v1/chat/completions'' (settings st) msgs;
         primary_ok = (case fetch h (requests st) req1 of
                         Rejected e \<Rightarrow> False
                       | Resolved r \<Rightarrow> ok r \<and> \<not> isl (json r))
     in requests (snd (callLLM h st conv)) =
          requests st @ (if primary_ok then [req1] else [req1, req2])
        \<and> req2 = req1\<lparr>url := strip_slashes (baseUrl (settings st)) @
                                 ''/openai/v1/chat/completions''\<rparr>
        \<and> (isl (fst (callLLM h st conv)) \<longrightarrow> \<not> primary_ok)"
proof -
  let ?req1 = "request_to ''/openrouter/v1/chat/completions'' (settings st) (messagesForApi h conv)"
  show ?thesis
  proof (cases "primary_attempt h (requests st) ?req1")
    case (Inl e)
    with primary_attempt_succeeds[of h "requests st" ?req1] assms show ?thesis
      by (simp add: callLLM_def Let_def request_to_def split: sum.splits)
  next
    case (Inr d)
    with primary_attempt_succeeds[of h "requests st" ?req1] assms show ?thesis
      by (simp add: callLLM_def Let_def request_to_def split: sum.splits)
  qed
qed

lemma failing_primary_fetch:
  "fetch failing_primary [] req =
     Resolved \<lparr>status = 500, statusText = ''Internal Server Error'',
               json = Inr (error_body ''boom'')\<rparr>"
  by (simp add: failing_primary_def scripted_host_def http_def)

lemma healthy_primary_fetch:
  "fetch healthy_primary [] req =
     Resolved \<lparr>status = 200, statusText = ''OK'', json = Inr plain_completion\<rparr>"
  by (simp add: healthy_primary_def scripted_host_def http_def)

text \<open>
  A primary endpoint that answers 500 is followed by one request to the alternate path;
  one that answers 200 with a JSON body is not.
\<close>

theorem callLLM_fallback_protocol_witness:
  "map url (requests (snd (callLLM failing_primary example_state example_conversation)))
     = [primary_url, fallback_url]
   \<and> map url (requests (snd (callLLM healthy_primary example_state example_conversation)))
     = [primary_url]"
proof -
  have a: "provider (settings example_state) = ''aipipe''"
    "apiKey (settings example_state) \<noteq> []"
    by (simp_all add: example_state_def example_settings_def)
  have b: "requests example_state = []"
    "strip_slashes (baseUrl (settings example_state)) = ''https://aipipe.org''"
    by (simp_all add: example_state_def example_settings_def strip_slashes_def)
  show ?thesis
    using callLLM_fallback_protocol[OF a, of failing_primary example_conversation]
      callLLM_fallback_protocol[OF a, of healthy_primary example_conversation]
    by (simp add: Let_def b failing_primary_fetch healthy_primary_fetch ok_def url_request_to
        primary_url_def fallback_url_def)
qed

text \<open>
  The claim as stated fails when the primary endpoint answers 200 with a body that is
  not JSON: \<^verbatim>\<open>resp.json()\<close> rejects inside the same \<^verbatim>\<open>try\<close>, and the fallback is called.
\<close>

theorem callLLM_fallback_after_200_counterexample:
  "fetch garbled_primary []
     (request_to ''/openrouter/v1/chat/completions'' example_settings
        (messagesForApi garbled_primary example_conversation)) = not_json 200 ''OK''
   \<and> map url (requests (snd (callLLM garbled_primary example_state example_conversation)))
     = [primary_url, fallback_url]"
  by code_simp

section \<open>The error of a failed call\<close>

text \<open>
  Claim C5, as amended. When the primary and the fallback attempt both fail, \<^verbatim>\<open>callLLM\<close>
  throws an error whose message is the message of the fallback failure when that is not
  empty, else the message of the primary failure, else \<^verbatim>\<open>Network error\<close>. The primary
  failure of a response that is not \<^verbatim>\<open>ok\<close> has a message made of the status, the error
  text and the hint on token and model, for every such status; it reaches the caller
  only in the second case.
\<close>

theorem callLLM_both_fail:
  assumes "provider (settings st) = ''aipipe''" "apiKey (settings st) \<noteq> []"
    and p: "primary_attempt h (requests st)
              (request_to ''/openrouter/v1/chat/completions'' (settings st)
                 (messagesForApi h conv)) = Inl err"
    and f: "fallback_attempt h
              (requests st @ [request_to ''/openrouter/v1/chat/completions'' (settings st)
                                (messagesForApi h conv)])
              (request_to ''/openai/v1/chat/completions'' (settings st)
                 (messagesForApi h conv)) = Inl err2"
  shows "fst (callLLM h st conv) =
           Inl (Error (if exn_message err2 \<noteq> [] then exn_message err2
                       else if exn_message err \<noteq> [] then exn_message err
                       else ''Network error''))
         \<and> (\<forall>r t. fetch h (requests st)
                     (request_to ''/openrouter/v1/chat/completions'' (settings st)
                        (messagesForApi h conv)) = Resolved r
                  \<and> \<not> ok r \<and> ToString (error_text h r) = Inr t \<longrightarrow>
                  err = Error (''AI Pipe error ('' @ show_nat (status r) @ ''): '' @ t @
                               tip (if model (settings st) = [] then ''openai/gpt-4o-mini''
                                    else model (settings st))))"
  using assms
  by (auto simp: callLLM_def Let_def final_message_def primary_attempt_def primary_error_def
      request_to_def)

lemma fallback_unreachable_primary:
  "primary_attempt fallback_unreachable (requests example_state)
     (request_to ''/openrouter/v1/chat/completions'' (settings example_state)
        (messagesForApi fallback_unreachable example_conversation))
   = Inl (Error (''AI Pipe error (401): Invalid token'' @ tip ''openai/gpt-4o-mini''))"
  by code_simp

lemma fallback_unreachable_fallback:
  "fallback_attempt fallback_unreachable
     (requests example_state @
      [request_to ''/openrouter/v1/chat/completions'' (settings example_state)
         (messagesForApi fallback_unreachable example_conversation)])
     (request_to ''/openai/v1/chat/completions'' (settings example_state)
        (messagesForApi fallback_unreachable example_conversation))
   = Inl (TypeError [])"
  by code_simp

text \<open>
  The primary endpoint answers 401 and the fallback call rejects with an error without
  message: the error thrown is the primary one, with status and hint.
\<close>

theorem callLLM_both_fail_witness:
  "fst (callLLM fallback_unreachable example_state example_conversation) =
     Inl (Error (''AI Pipe error (401): Invalid token'' @ tip ''openai/gpt-4o-mini''))"
proof -
  have a: "provider (settings example_state) = ''aipipe''"
    "apiKey (settings example_state) \<noteq> []"
    by (simp_all add: example_state_def example_settings_def)
  show ?thesis
    using callLLM_both_fail[OF a fallback_unreachable_primary fallback_unreachable_fallback]
    by simp
qed

text \<open>
  The claim as stated fails when the fallback fails with a message of its own: the
  primary endpoint answers 401 (its failure carries the status and the hint), the
  fallback answers 500, and the error thrown is the fallback's, which holds neither the
  primary status, nor the primary message, nor a hint.
\<close>

theorem callLLM_both_fail_counterexample:
  "primary_attempt both_fail []
     (request_to ''/openrouter/v1/chat/completions'' example_settings
        (messagesForApi both_fail example_conversation))
     = Inl (Error (''AI Pipe error (401): Invalid token'' @ tip ''openai/gpt-4o-mini''))
   \<and> fst (callLLM both_fail example_state example_conversation)
     = Inl (Error ''AI Pipe (fallback) error (500): upstream down'')
   \<and> \<not> sublist ''401'' ''AI Pipe (fallback) error (500): upstream down''
   \<and> \<not> sublist ''Invalid token'' ''AI Pipe (fallback) error (500): upstream down''
   \<and> \<not> sublist ''Tip'' ''AI Pipe (fallback) error (500): upstream down''"
  by code_simp

section \<open>Tool execution\<close>

lemma executeTool_result_indep:
  "fst (executeTool h st tc) = fst (executeTool h st' tc)"
  by (simp add: executeTool_def Let_def split: sum.splits)

lemma run_tool_no_arguments:
  "\<exists>payload. run_tool (JStr n) (JObj []) = Inr payload"
  by (simp add: run_tool_def executeWebSearch_def executeCode_def processFile_def
      createVisualization_def bind_def)

text \<open>
  Claim C9. Take a tool-call request (an object whose tool name is a string, or is
  missing and then read as \<^verbatim>\<open>unknown\<close>) whose \<^verbatim>\<open>arguments\<close> are a string on which
  \<^verbatim>\<open>JSON.parse\<close> throws. The arguments become the empty object, the tool of that name
  is run on it, and \<^verbatim>\<open>executeTool\<close> returns a payload: nothing is thrown.
\<close>

theorem executeTool_malformed_arguments:
  assumes tc: "get toolCall ''function'' = Inr f"
    and nm: "js_or (get_opt (js_or f (JObj [])) ''name'') (JStr ''unknown'') = JStr m"
    and arg: "get toolCall ''arguments'' = Inr (JStr s)"
    and bad: "JSON_parse h s = Inl e"
  shows "tool_arguments h toolCall = JObj []
         \<and> fst (executeTool h st toolCall) = run_tool (JStr m) (JObj [])
         \<and> (\<exists>payload. fst (executeTool h st toolCall) = Inr payload)"
proof -
  have args: "tool_arguments h toolCall = JObj []"
    using arg bad by (simp add: tool_arguments_def)
  have run: "fst (executeTool h st toolCall) = run_tool (JStr m) (JObj [])"
    using tc nm args by (simp add: executeTool_def Let_def)
  with run_tool_no_arguments[of m] args show ?thesis by simp
qed

text \<open>
  The request \<^verbatim>\<open>web_search\<close> with the arguments \<^verbatim>\<open>{not json\<close>: the search runs on the
  empty object, whose \<^verbatim>\<open>query\<close> is undefined.
\<close>

theorem executeTool_malformed_arguments_witness:
  "JSON_parse (scripted_host []) ''{not json'' = Inl (Exn ''SyntaxError'' ''Unexpected token'')
   \<and> tool_arguments (scripted_host []) malformed_call = JObj []
   \<and> fst (executeTool (scripted_host []) example_state malformed_call)
       = Inr (JObj [(''status'', JStr ''Simulated search for: undefined''), (''items'', JArr [])])"
proof -
  have a: "get malformed_call ''function'' = Inr (JObj [(''name'', JStr ''web_search'')])"
    "js_or (get_opt (js_or (JObj [(''name'', JStr ''web_search'')]) (JObj [])) ''name'')
       (JStr ''unknown'') = JStr ''web_search''"
    "get malformed_call ''arguments'' = Inr (JStr ''{not json'')"
    "JSON_parse (scripted_host []) ''{not json'' = Inl (Exn ''SyntaxError'' ''Unexpected token'')"
    by (simp_all add: malformed_call_def tool_call_def get_opt_def js_or_def scripted_host_def
        example_parse_def)
  have r: "run_tool (JStr ''web_search'') (JObj [])
         = Inr (JObj [(''status'', JStr ''Simulated search for: undefined''), (''items'', JArr [])])"
    by (simp add: run_tool_def executeWebSearch_def bind_def)
  show ?thesis
    using executeTool_malformed_arguments[OF a, of example_state] a(4) r by simp
qed

section \<open>Dispatch of a batch\<close>

lemma start_all_results:
  "fst (start_all h st tcs) = map (\<lambda>tc. fst (executeTool h st0 tc)) tcs"
proof (induction tcs arbitrary: st)
  case Nil
  show ?case by simp
next
  case (Cons tc tcs)
  obtain p st1 where e: "executeTool h st tc = (p, st1)" by (cases "executeTool h st tc")
  obtain ps st2 where s: "start_all h st1 tcs = (ps, st2)" by (cases "start_all h st1 tcs")
  have "p = fst (executeTool h st0 tc)"
    using e executeTool_result_indep[of h st tc st0] by simp
  moreover have "ps = map (\<lambda>tc. fst (executeTool h st0 tc)) tcs"
    using Cons.IH[of st1] s by simp
  ultimately show ?case using e s by simp
qed

lemma reasons_empty: "(reasons ps = []) = (\<forall>p \<in> set ps. \<not> isl p)"
  by (induction ps rule: reasons.induct) auto

lemma fulfilled_all: "\<forall>p \<in> set ps. \<not> isl p \<Longrightarrow> map Inr (fulfilled ps) = ps"
  by (induction ps rule: fulfilled.induct) auto

lemma dispatchAll_result:
  "fst (dispatchAll h st tcs) = Promise_all h (map (\<lambda>tc. fst (executeTool h st tc)) tcs)"
  using start_all_results[of h st tcs st]
  by (cases "start_all h st tcs") (simp add: dispatchAll_def)

text \<open>
  Claim C2, as amended. For a list of N tool-call requests: when no invocation throws,
  the dispatch yields exactly N results, the i-th being the result of the i-th request;
  when some invocation throws, the dispatch as a whole fails and yields no result.
  (The order is that of \<^verbatim>\<open>Promise.all\<close>, whatever the order of completion.)
\<close>

theorem dispatchAll_all_or_nothing:
  "((\<forall>tc \<in> set tcs. \<not> isl (fst (executeTool h st tc))) \<longrightarrow>
      (\<exists>results. fst (dispatchAll h st tcs) = Inr results \<and> length results = length tcs \<and>
         (\<forall>i < length tcs. fst (executeTool h st (tcs ! i)) = Inr (results ! i))))
   \<and> ((\<exists>tc \<in> set tcs. isl (fst (executeTool h st tc))) \<longrightarrow> isl (fst (dispatchAll h st tcs)))"
proof (intro conjI impI)
  let ?ps = "map (\<lambda>tc. fst (executeTool h st tc)) tcs"
  assume ok: "\<forall>tc \<in> set tcs. \<not> isl (fst (executeTool h st tc))"
  then have all: "\<forall>p \<in> set ?ps. \<not> isl p" by simp
  then have r: "reasons ?ps = []" using reasons_empty[of ?ps] by blast
  have m: "map Inr (fulfilled ?ps) = ?ps" using fulfilled_all[OF all] .
  have len: "length (fulfilled ?ps) = length tcs"
    using arg_cong[OF m, of length] by simp
  have nth: "fst (executeTool h st (tcs ! i)) = Inr (fulfilled ?ps ! i)" if "i < length tcs" for i
    using arg_cong[OF m, of "\<lambda>xs. xs ! i"] that len by simp
  show "\<exists>results. fst (dispatchAll h st tcs) = Inr results \<and> length results = length tcs \<and>
         (\<forall>i < length tcs. fst (executeTool h st (tcs ! i)) = Inr (results ! i))"
    using r len nth by (simp add: dispatchAll_result Promise_all_def)
next
  let ?ps = "map (\<lambda>tc. fst (executeTool h st tc)) tcs"
  assume "\<exists>tc \<in> set tcs. isl (fst (executeTool h st tc))"
  then have "\<not> (\<forall>p \<in> set ?ps. \<not> isl p)" by simp
  then have "reasons ?ps \<noteq> []" using reasons_empty[of ?ps] by blast
  then show "isl (fst (dispatchAll h st tcs))"
    by (simp add: dispatchAll_result Promise_all_def)
qed

lemma two_calls_results:
  "map (\<lambda>tc. fst (executeTool (scripted_host []) example_state tc)) two_calls =
     [Inr (JObj [(''status'', JStr ''Simulated search for: undefined''), (''items'', JArr [])]),
      Inr (JObj [(''error'', JStr ''Unknown tool: nope'')])]"
  by code_simp

theorem dispatchAll_all_or_nothing_witness:
  "\<not> isl (fst (executeTool (scripted_host []) example_state (two_calls ! 0)))
   \<and> \<not> isl (fst (executeTool (scripted_host []) example_state (two_calls ! 1)))
   \<and> fst (dispatchAll (scripted_host []) example_state two_calls) =
       Inr [JObj [(''status'', JStr ''Simulated search for: undefined''), (''items'', JArr [])],
            JObj [(''error'', JStr ''Unknown tool: nope'')]]
   \<and> isl (fst (executeTool (scripted_host []) example_state null_arguments_call))
   \<and> isl (fst (dispatchAll (scripted_host []) example_state raising_batch))"
proof -
  let ?h = "scripted_host []"
  have r: "fst (executeTool ?h example_state (two_calls ! 0)) = Inr (JObj [(''status'', JStr ''Simulated search for: undefined''), (''items'', JArr [])])"
    "fst (executeTool ?h example_state (two_calls ! 1)) = Inr (JObj [(''error'', JStr ''Unknown tool: nope'')])"
    using two_calls_results by (simp_all add: two_calls_def)
  have a: "\<forall>tc \<in> set two_calls. \<not> isl (fst (executeTool ?h example_state tc))"
    using r by (simp add: two_calls_def)
  have len: "length two_calls = 2" by (simp add: two_calls_def)
  have b: "isl (fst (executeTool ?h example_state null_arguments_call))"
    by code_simp
  from dispatchAll_all_or_nothing[of two_calls ?h example_state] a
  obtain results where res: "fst (dispatchAll ?h example_state two_calls) = Inr results"
    "length results = 2" "\<forall>i < 2. fst (executeTool ?h example_state (two_calls ! i)) = Inr (results ! i)"
    using len by auto
  from res(3) r have "results ! 0 = JObj [(''status'', JStr ''Simulated search for: undefined''), (''items'', JArr [])]"
    "results ! 1 = JObj [(''error'', JStr ''Unknown tool: nope'')]" by auto
  with res(2) have "results = [JObj [(''status'', JStr ''Simulated search for: undefined''), (''items'', JArr [])],
            JObj [(''error'', JStr ''Unknown tool: nope'')]]"
    by (cases results; cases "tl results"; cases "tl (tl results)") auto
  moreover have "isl (fst (dispatchAll ?h example_state raising_batch))"
    using dispatchAll_all_or_nothing[of raising_batch ?h example_state] b
    by (simp add: raising_batch_def)
  ultimately show ?thesis using r b res(1) by simp
qed

text \<open>
  The claim as stated fails on a request whose arguments are the JSON text \<^verbatim>\<open>null\<close>:
  it decodes to \<^verbatim>\<open>null\<close>, the stub throws when it destructures its argument, and with it
  the whole dispatch of this one request fails.
\<close>

theorem dispatchAll_fails_counterexample:
  "isl (fst (dispatchAll (scripted_host []) example_state [null_arguments_call]))
   \<and> JSON_parse (scripted_host []) ''null'' = Inr Null"
  by code_simp


section \<open>What the steps of the loop leave alone\<close>

lemma same_frame_refl: "same_frame st st"
  by (simp add: same_frame_def)

lemma same_frame_trans: "same_frame a b \<Longrightarrow> same_frame b c \<Longrightarrow> same_frame a c"
  by (simp add: same_frame_def)

lemma same_frame_conv: "same_frame st st' \<Longrightarrow> conversations st cid \<noteq> None \<Longrightarrow> conversations st' cid \<noteq> None"
  by (auto simp: same_frame_def dom_def)

lemma messages_appended: "messages (appended r c conv) = messages conv @ [ui_message r c]"
  by (cases c) (simp_all add: appended_def Let_def)

lemma addMessage_cases:
  "addMessage r c i st = st \<or>
   (\<exists>k conv. conversations st k = Some conv \<and> c \<noteq> Null \<and> c \<noteq> Undefined \<and>
      addMessage r c i st = st\<lparr>conversations := (conversations st)(k \<mapsto> appended r c conv)\<rparr>)"
  by (auto simp: addMessage_def Let_def split: option.splits)

lemma addMessage_frame: "same_frame st (addMessage r c i st)"
  using addMessage_cases[of r c i st]
proof (elim disjE exE conjE)
  assume "addMessage r c i st = st"
  then show ?thesis by (simp add: same_frame_def)
next
  fix k conv
  assume k: "conversations st k = Some conv"
    and eq: "addMessage r c i st =
               st\<lparr>conversations := (conversations st)(k \<mapsto> appended r c conv)\<rparr>"
  have "dom ((conversations st)(k \<mapsto> appended r c conv)) = dom (conversations st)"
    using k by auto
  with eq show ?thesis by (simp add: same_frame_def)
qed

lemma addMessage_tool_messages:
  assumes "r \<noteq> ''tool''"
  shows "tool_messages (addMessage r c i st) k = tool_messages st k"
  using addMessage_cases[of r c i st] assms
  by (auto simp: tool_messages_def ui_message_def messages_appended)

lemma push_message_frame: "same_frame st (push_message cid m st)"
proof (cases "conversations st cid")
  case None
  then show ?thesis by (simp add: push_message_def same_frame_def)
next
  case (Some conv)
  then have "dom ((conversations st)(cid \<mapsto> conv\<lparr>messages := messages conv @ [m]\<rparr>)) =
               dom (conversations st)" by auto
  with Some show ?thesis by (simp add: push_message_def same_frame_def)
qed

lemma push_message_tool_messages:
  "role m \<noteq> ''tool'' \<Longrightarrow> tool_messages (push_message cid m st) k = tool_messages st k"
  by (auto simp: push_message_def tool_messages_def split: option.splits)

lemma executeTool_state:
  "snd (executeTool h st tc) = st \<or>
   (\<exists>n. snd (executeTool h st tc) = addMessage ''system'' (JStr n) (currentConversationId st) st)"
  by (auto simp: executeTool_def Let_def split: sum.splits)

lemma executeTool_frame: "same_frame st (snd (executeTool h st tc))"
  using executeTool_state[of h st tc] addMessage_frame same_frame_refl by metis

lemma executeTool_tool_messages: "tool_messages (snd (executeTool h st tc)) k = tool_messages st k"
  using executeTool_state[of h st tc] addMessage_tool_messages[of "''system''"] by auto

lemma start_all_frame:
  "same_frame st (snd (start_all h st tcs)) \<and>
   tool_messages (snd (start_all h st tcs)) k = tool_messages st k"
proof (induction tcs arbitrary: st)
  case Nil
  show ?case by (simp add: same_frame_refl)
next
  case (Cons tc tcs)
  obtain p st1 where e: "executeTool h st tc = (p, st1)" by (cases "executeTool h st tc")
  obtain ps st2 where s: "start_all h st1 tcs = (ps, st2)" by (cases "start_all h st1 tcs")
  have "same_frame st st1" "tool_messages st1 k = tool_messages st k"
    using executeTool_frame[of st h tc] executeTool_tool_messages[of h st tc k] e by simp_all
  moreover have "same_frame st1 st2" "tool_messages st2 k = tool_messages st1 k"
    using Cons.IH[of st1] s by simp_all
  ultimately show ?case using e s same_frame_trans by auto
qed

lemma dispatchAll_frame:
  "same_frame st (snd (dispatchAll h st tcs)) \<and>
   tool_messages (snd (dispatchAll h st tcs)) k = tool_messages st k"
  using start_all_frame[of st h tcs k]
  by (cases "start_all h st tcs") (simp add: dispatchAll_def)

lemma append_results_frame: "same_frame st (snd (append_results h cid pairs st))"
proof (induction pairs arbitrary: st)
  case Nil
  show ?case by (simp add: same_frame_refl)
next
  case (Cons pr pairs)
  obtain tc result where pr: "pr = (tc, result)" by (cases pr)
  show ?case
    unfolding pr
    by (auto simp: Let_def split: sum.splits prod.splits
        intro: same_frame_refl same_frame_trans[OF same_frame_trans[OF push_message_frame addMessage_frame] Cons.IH])
qed


section \<open>Requests for unknown tools\<close>

lemma registry_names: "set (map fn_name initializeTools) = {''web_search'', ''execute_code'', ''process_file'', ''create_visualization''}"
  by (simp add: initializeTools_def)

lemma index_of_key_0: "index_of_key k 0 = None"
  by (simp add: index_of_key_def)

lemma get_name_object:
  assumes "get f ''name'' = Inr (JStr n)"
  shows "truthy f"
proof (cases f)
  case (JStr s)
  show ?thesis
  proof (cases "s = []")
    case True
    with JStr assms show ?thesis by (simp add: index_of_key_0)
  next
    case False
    with JStr show ?thesis by simp
  qed
next
  case (JBool b)
  with assms show ?thesis by simp
next
  case (JNum s)
  with assms show ?thesis by simp
qed (use assms in simp_all)

lemma run_tool_unknown:
  assumes "n \<notin> set (map fn_name initializeTools)"
  shows "run_tool (JStr n) args = Inr (JObj [(''error'', JStr (''Unknown tool: '' @ n))])"
proof -
  have "n \<noteq> ''web_search''" "n \<noteq> ''execute_code''" "n \<noteq> ''process_file''" "n \<noteq> ''create_visualization''"
    using assms unfolding registry_names by blast+
  then show ?thesis by (simp add: run_tool_def bind_def)
qed

lemma executeTool_unknown:
  assumes f: "get tc ''function'' = Inr f" and n: "get f ''name'' = Inr (JStr n)"
    and ne: "n \<noteq> []" and un: "n \<notin> set (map fn_name initializeTools)"
  shows "executeTool h st tc =
           (Inr (JObj [(''error'', JStr (''Unknown tool: '' @ n))]),
            addMessage ''system'' (JStr (''Executing tool: '' @ n)) (currentConversationId st) st)"
proof -
  have tf: "truthy f" using get_name_object[OF n] .
  have name: "js_or (get_opt (js_or f (JObj [])) ''name'') (JStr ''unknown'') = JStr n"
    using tf n ne by (simp add: js_or_def get_opt_def)
  from f name run_tool_unknown[OF un] show ?thesis by (simp add: executeTool_def Let_def)
qed


lemma get_succeeds_any_key: "get v k = Inr x \<Longrightarrow> \<exists>y. get v k' = Inr y"
  by (cases v) auto

lemma prelude_frame:
  "same_frame st (if truthy c then addMessage ''assistant'' c i st else st) \<and>
   tool_messages (if truthy c then addMessage ''assistant'' c i st else st) k = tool_messages st k"
  using addMessage_frame[of st "''assistant''" c i] addMessage_tool_messages[of "''assistant''" c i st k]
  by (simp add: same_frame_refl)

lemma dispatch_raises:
  assumes "tc \<in> set tcs" "isl (fst (executeTool h st0 tc))"
  shows "isl (fst (dispatchAll h st tcs))"
proof -
  have "isl (fst (executeTool h st tc))"
    using assms(2) executeTool_result_indep[of h st tc st0] by simp
  with assms(1) have "\<not> (\<forall>p \<in> set (map (\<lambda>tc. fst (executeTool h st tc)) tcs). \<not> isl p)"
    by auto
  then have "reasons (map (\<lambda>tc. fst (executeTool h st tc)) tcs) \<noteq> []"
    using reasons_empty by blast
  then show ?thesis by (simp add: dispatchAll_result Promise_all_def)
qed

lemma handle_response_raises:
  assumes tcs: "response_tool_calls r = Some tcs" and tc: "tc \<in> set tcs"
    and raise: "isl (fst (executeTool h st0 tc))"
  shows "isl (fst (handle_response h cid r st)) \<and>
         same_frame st (snd (handle_response h cid r st)) \<and>
         tool_messages (snd (handle_response h cid r st)) k = tool_messages st k"
proof -
  let ?st1 = "if truthy (response_content r)
              then addMessage ''assistant'' (response_content r) (Some cid) st else st"
  have rt: "requests_tools r" using tcs tc by (auto simp: requests_tools_def)
  have p: "same_frame st ?st1" "tool_messages ?st1 k = tool_messages st k"
    using prelude_frame[of st "response_content r" "Some cid" k] by simp_all
  show ?thesis
  proof (cases "bind (sequence (map (\<lambda>tc. bind (get tc ''function'') (\<lambda>f. get f ''name'')) tcs))
                  (join '', '')")
    case (Inl e)
    with rt tcs p show ?thesis by (simp add: handle_response_def Let_def)
  next
    case (Inr names)
    let ?st2 = "addMessage ''assistant'' (JStr (''Using tools: '' @ names)) (Some cid) ?st1"
    let ?st3 = "push_message cid
                  \<lparr>role = ''assistant'', content = Null, tool_calls = JArr tcs,
                   tool_call_id = Undefined, tool_name = Undefined\<rparr> ?st2"
    obtain res st4 where d: "dispatchAll h ?st3 tcs = (res, st4)"
      by (cases "dispatchAll h ?st3 tcs")
    have "isl res" using dispatch_raises[OF tc raise, of ?st3] d by simp
    then obtain e where e: "res = Inl e" by (cases res) auto
    have f2: "same_frame ?st1 ?st2" "tool_messages ?st2 k = tool_messages ?st1 k"
      using addMessage_frame addMessage_tool_messages[of "''assistant''"] by simp_all
    have f3: "same_frame ?st2 ?st3" "tool_messages ?st3 k = tool_messages ?st2 k"
      using push_message_frame push_message_tool_messages by simp_all
    have f4: "same_frame ?st3 st4" "tool_messages st4 k = tool_messages ?st3 k"
      using dispatchAll_frame[of ?st3 h tcs k] d by simp_all
    have fr: "same_frame st st4"
      using same_frame_trans[OF same_frame_trans[OF same_frame_trans[OF p(1) f2(1)] f3(1)] f4(1)] .
    have tm: "tool_messages st4 k = tool_messages st k"
      using p(2) f2(2) f3(2) f4(2) by simp
    have "handle_response h cid r st = (Inl e, st4)"
      using rt tcs Inr d e by (simp add: handle_response_def Let_def)
    with fr tm show ?thesis by simp
  qed
qed

lemma handle_response_unknown:
  assumes tcs: "response_tool_calls r = Some [tc]"
    and f: "get tc ''function'' = Inr f" and n: "get f ''name'' = Inr (JStr n)"
    and ne: "n \<noteq> []" and un: "n \<notin> set (map fn_name initializeTools)"
  shows "fst (handle_response h cid r st) = Inr Continue \<and>
         same_frame st (snd (handle_response h cid r st))"
proof -
  let ?st1 = "if truthy (response_content r)
              then addMessage ''assistant'' (response_content r) (Some cid) st else st"
  let ?st2 = "addMessage ''assistant'' (JStr (''Using tools: '' @ n)) (Some cid) ?st1"
  let ?st3 = "push_message cid
                \<lparr>role = ''assistant'', content = Null, tool_calls = JArr [tc],
                 tool_call_id = Undefined, tool_name = Undefined\<rparr> ?st2"
  let ?payload = "JObj [(''error'', JStr (''Unknown tool: '' @ n))]"
  let ?st4 = "addMessage ''system'' (JStr (''Executing tool: '' @ n)) (currentConversationId ?st3) ?st3"
  have rt: "requests_tools r" using tcs by (simp add: requests_tools_def)
  have names: "bind (sequence (map (\<lambda>tc. bind (get tc ''function'') (\<lambda>f. get f ''name'')) [tc]))
                 (join '', '') = Inr n"
    using f n by (simp add: bind_def join_def)
  have d: "dispatchAll h ?st3 [tc] = (Inr [?payload], ?st4)"
    using executeTool_unknown[OF f n ne un, of h ?st3]
    by (simp add: dispatchAll_def Promise_all_def)
  obtain i where i: "get tc ''id'' = Inr i" using get_succeeds_any_key[OF f] by blast
  let ?c = "stringify h ?payload"
  let ?st5 = "addMessage ''tool'' ?c (Some cid)
                (push_message cid \<lparr>role = ''tool'', content = ?c, tool_calls = Undefined,
                                   tool_call_id = i, tool_name = JStr n\<rparr> ?st4)"
  have a: "append_results h cid (zip [tc] [?payload]) ?st4 = (Inr (), ?st5)"
    using i f n by (simp add: bind_def Let_def)
  have hr: "handle_response h cid r st = (Inr Continue, ?st5)"
    using rt tcs names d a by (simp add: handle_response_def Let_def)
  have s1: "same_frame st ?st1"
    using prelude_frame[of st "response_content r" "Some cid"] by simp
  have s2: "same_frame ?st1 ?st2" using addMessage_frame .
  have s3: "same_frame ?st2 ?st3" using push_message_frame .
  have s4: "same_frame ?st3 ?st4" using addMessage_frame .
  have s5: "same_frame ?st4 ?st5"
    using same_frame_trans[OF push_message_frame addMessage_frame] .
  have "same_frame st ?st5"
    using same_frame_trans[OF same_frame_trans[OF same_frame_trans[OF same_frame_trans[OF s1 s2] s3] s4] s5] .
  with hr show ?thesis by simp
qed


lemma iteration_after_parse:
  assumes conv: "conversations st cid = Some conv"
    and call: "callLLM h st conv = (Inr data, st1)"
    and norm: "norm data (provider (settings st)) = Inr r"
  shows "iteration norm h cid st =
           (case handle_response h cid r (st1\<lparr>apiCalls := apiCalls st1 + 1\<rparr>) of
              (Inl e, st3) \<Rightarrow>
                (if requests_tools r then [AWAIT_MODEL, DISPATCH_TOOLS] else [AWAIT_MODEL],
                 Break, on_error e cid st3)
            | (Inr oc, st3) \<Rightarrow>
                (if requests_tools r then [AWAIT_MODEL, DISPATCH_TOOLS] else [AWAIT_MODEL],
                 oc, st3))"
proof -
  have "settings st1 = settings st" using callLLM_frame[of h st conv] call by simp
  with conv call norm show ?thesis by (simp add: iteration_def Let_def)
qed

lemma call_frame:
  assumes "callLLM h st conv = (res, st1)"
  shows "same_frame st (st1\<lparr>apiCalls := apiCalls st1 + 1\<rparr>) \<and>
         tool_messages (st1\<lparr>apiCalls := apiCalls st1 + 1\<rparr>) k = tool_messages st k"
  using callLLM_frame[of h st conv] assms by (simp add: same_frame_def tool_messages_def)

lemma on_error_appends:
  assumes "conversations st cid = Some conv" "cid \<noteq> []"
  shows "\<exists>conv' tx. conversations (on_error e cid st) cid = Some conv' \<and>
           messages conv' =
             messages conv @ [ui_message ''system'' (JStr (''Agent iteration error: '' @ tx))]"
proof -
  let ?t = "if exn_message e \<noteq> [] then exn_message e else exn_name e"
  have d: "JStr (''Agent iteration error: '' @ ?t) \<noteq> Null"
    "JStr (''Agent iteration error: '' @ ?t) \<noteq> Undefined" by simp_all
  from addMessage_appends[OF assms d, of "''system''"]
  obtain conv' where
    "conversations (addMessage ''system'' (JStr (''Agent iteration error: '' @ ?t)) (Some cid) st) cid
       = Some conv'"
    "messages conv' =
       messages conv @ [ui_message ''system'' (JStr (''Agent iteration error: '' @ ?t))]"
    by blast
  then show ?thesis unfolding on_error_def by blast
qed

lemma on_error_tool_messages: "tool_messages (on_error e cid st) k = tool_messages st k"
  by (simp add: on_error_def addMessage_tool_messages)

lemma loop_starts: "\<exists>rest. fst (loop norm h cid (Suc n) st) = AWAIT_MODEL # rest"
proof -
  obtain ps oc st1 where it: "iteration norm h cid st = (ps, oc, st1)"
    by (cases "iteration norm h cid st") auto
  have "\<exists>rest. ps = AWAIT_MODEL # rest"
    using it by (auto simp: iteration_def Let_def split: option.splits prod.splits sum.splits if_splits)
  then obtain rest where ps: "ps = AWAIT_MODEL # rest" by blast
  obtain tr st2 where l: "loop norm h cid n st1 = (tr, st2)" by (cases "loop norm h cid n st1")
  show ?thesis using it ps l by (cases oc) auto
qed

lemma iteration_unknown_tool:
  assumes conv: "conversations st cid = Some conv"
    and call: "callLLM h st conv = (Inr data, st1)"
    and norm: "norm data (provider (settings st)) = Inr r"
    and tcs: "response_tool_calls r = Some [tc]"
    and f: "get tc ''function'' = Inr f" and n: "get f ''name'' = Inr (JStr n)"
    and ne: "n \<noteq> []" and un: "n \<notin> set (map fn_name initializeTools)"
  shows "\<exists>st'. iteration norm h cid st = ([AWAIT_MODEL, DISPATCH_TOOLS], Continue, st') \<and>
           same_frame st st'"
proof -
  let ?st2 = "st1\<lparr>apiCalls := apiCalls st1 + 1\<rparr>"
  obtain res st3 where hr: "handle_response h cid r ?st2 = (res, st3)"
    by (cases "handle_response h cid r ?st2")
  have res: "res = Inr Continue" and fr: "same_frame ?st2 st3"
    using handle_response_unknown[OF tcs f n ne un, of h cid ?st2] hr by simp_all
  have rt: "requests_tools r" using tcs by (simp add: requests_tools_def)
  have "iteration norm h cid st = ([AWAIT_MODEL, DISPATCH_TOOLS], Continue, st3)"
    using iteration_after_parse[where norm = norm, OF conv call norm] hr res rt by simp
  moreover have "same_frame st st3"
    using same_frame_trans[OF _ fr] call_frame[OF call] by blast
  ultimately show ?thesis by blast
qed

lemma constant_fetch_call:
  assumes "settings st = example_settings"
    and "fetch h = (\<lambda>log req. http 200 ''OK'' data)"
  shows "\<exists>st1. callLLM h st conv = (Inr data, st1)"
  using assms
  by (simp add: callLLM_def Let_def primary_attempt_def http_def ok_def example_settings_def)

lemma keep_unknown:
  "keeping_tool_calls (chat_completion unknown_tool_message) ''aipipe'' =
     Inr \<lparr>response_content = JStr [],
          response_tool_calls = Some [tool_call ''call_1'' ''nope'' ''{}'']\<rparr>"
  by code_simp

lemma keep_raising:
  "keeping_tool_calls (chat_completion (JObj [(''content'', Null), (''tool_calls'', JArr raising_batch)])) ''aipipe'' =
     Inr \<lparr>response_content = JStr [], response_tool_calls = Some raising_batch\<rparr>"
  by code_simp

lemma tool_call_function:
  "get (tool_call i n a) ''function'' = Inr (JObj [(''name'', JStr n)])"
  "get (JObj [(''name'', JStr n)]) ''name'' = Inr (JStr n)"
  by (simp_all add: tool_call_def)

lemma nope_unknown: "''nope'' \<noteq> [] \<and> ''nope'' \<notin> set (map fn_name initializeTools)"
  unfolding registry_names by simp

lemma always_tools_iteration:
  assumes s: "settings st = example_settings" and c: "conversations st ''conv_1'' \<noteq> None"
  shows "\<exists>st'. iteration keeping_tool_calls always_tools ''conv_1'' st =
                  ([AWAIT_MODEL, DISPATCH_TOOLS], Continue, st') \<and> same_frame st st'"
proof -
  obtain conv where conv: "conversations st ''conv_1'' = Some conv" using c by blast
  obtain st1 where call:
    "callLLM always_tools st conv = (Inr (chat_completion unknown_tool_message), st1)"
    using constant_fetch_call[OF s, of always_tools "chat_completion unknown_tool_message" conv]
    by (auto simp: always_tools_def)
  have norm: "keeping_tool_calls (chat_completion unknown_tool_message) (provider (settings st)) =
     Inr \<lparr>response_content = JStr [],
          response_tool_calls = Some [tool_call ''call_1'' ''nope'' ''{}'']\<rparr>"
    using keep_unknown s by (simp add: example_settings_def)
  show ?thesis
    using iteration_unknown_tool[where norm = keeping_tool_calls, OF conv call norm _
        tool_call_function nope_unknown[THEN conjunct1] nope_unknown[THEN conjunct2]]
    by simp
qed

lemma always_tools_loop:
  assumes "settings st = example_settings" "conversations st ''conv_1'' \<noteq> None"
  shows "fst (loop keeping_tool_calls always_tools ''conv_1'' n st) =
           concat (replicate n [AWAIT_MODEL, DISPATCH_TOOLS]) @ [TERMINATED]"
  using assms
proof (induction n arbitrary: st)
  case 0
  show ?case by simp
next
  case (Suc n)
  obtain st' where it: "iteration keeping_tool_calls always_tools ''conv_1'' st =
                  ([AWAIT_MODEL, DISPATCH_TOOLS], Continue, st')" and fr: "same_frame st st'"
    using always_tools_iteration[OF Suc.prems] by blast
  have inv: "settings st' = example_settings" "conversations st' ''conv_1'' \<noteq> None"
    using fr Suc.prems same_frame_conv[OF fr] by (simp_all add: same_frame_def)
  obtain tr st2 where l: "loop keeping_tool_calls always_tools ''conv_1'' n st' = (tr, st2)"
    by (cases "loop keeping_tool_calls always_tools ''conv_1'' n st'")
  with Suc.IH[OF inv] it show ?case by simp
qed

lemma example_state_inv:
  "settings example_state = example_settings" "conversations example_state ''conv_1'' \<noteq> None"
  "conversations example_state ''conv_1'' = Some example_conversation"
  by (simp_all add: example_state_def)

lemma executeTool_payload_defined:
  assumes "fst (executeTool h st tc) = Inr v"
  shows "v \<noteq> Undefined"
proof -
  have "run_tool name args = Inr v \<Longrightarrow> v \<noteq> Undefined" for name args
    by (auto simp: run_tool_def executeWebSearch_def executeCode_def processFile_def
        createVisualization_def bind_def split: if_splits sum.splits)
  with assms show ?thesis
    by (auto simp: executeTool_def Let_def split: sum.splits)
qed

lemma sequence_all_ok:
  assumes "\<forall>x \<in> set xs. \<exists>y. g x = Inr y \<and> P y"
  shows "\<exists>ys. sequence (map g xs) = Inr ys \<and> (\<forall>y \<in> set ys. P y)"
  using assms
proof (induction xs)
  case Nil
  show ?case by simp
next
  case (Cons x xs)
  then obtain y ys where "g x = Inr y" "P y" "sequence (map g xs) = Inr ys" "\<forall>y \<in> set ys. P y"
    by auto
  then show ?case by simp
qed

lemma join_strings:
  assumes "\<forall>x \<in> set xs. \<exists>m. x = JStr m"
  shows "\<exists>s. join sep xs = Inr s"
proof -
  have "\<forall>x \<in> set xs. \<exists>y. (if x = Undefined \<or> x = Null then Inr [] else ToString x) = Inr y \<and> True"
    using assms by auto
  from sequence_all_ok[OF this] show ?thesis by (auto simp: join_def bind_def)
qed

lemma names_step_ok:
  assumes "\<forall>tc \<in> set tcs. \<exists>g m. get tc ''function'' = Inr g \<and> get g ''name'' = Inr (JStr m)"
  shows "\<exists>names. bind (sequence (map (\<lambda>tc. bind (get tc ''function'') (\<lambda>f. get f ''name'')) tcs))
                   (join '', '') = Inr names"
proof -
  have "\<forall>tc \<in> set tcs. \<exists>y. bind (get tc ''function'') (\<lambda>f. get f ''name'') = Inr y \<and> (\<exists>m. y = JStr m)"
    using assms by (auto simp: bind_def)
  from sequence_all_ok[OF this] obtain ys where
    ys: "sequence (map (\<lambda>tc. bind (get tc ''function'') (\<lambda>f. get f ''name'')) tcs) = Inr ys"
    "\<forall>y \<in> set ys. \<exists>m. y = JStr m" by blast
  from join_strings[OF ys(2), of "'', ''"] ys(1) show ?thesis by (auto simp: bind_def)
qed

lemma dispatchAll_result_indep: "fst (dispatchAll h st tcs) = fst (dispatchAll h st' tcs)"
proof -
  have "map (\<lambda>tc. fst (executeTool h st tc)) tcs = map (\<lambda>tc. fst (executeTool h st' tc)) tcs"
    using executeTool_result_indep[of h st _ st'] by simp
  then show ?thesis by (simp only: dispatchAll_result)
qed

lemma dispatchAll_ok:
  assumes ok: "\<forall>tc \<in> set tcs. \<not> isl (fst (executeTool h st tc))"
  shows "\<exists>results. fst (dispatchAll h st tcs) = Inr results \<and> length results = length tcs \<and>
           (\<forall>i < length tcs. fst (executeTool h st (tcs ! i)) = Inr (results ! i))"
proof -
  let ?ps = "map (\<lambda>tc. fst (executeTool h st tc)) tcs"
  from ok have all: "\<forall>p \<in> set ?ps. \<not> isl p" by simp
  then have r: "reasons ?ps = []" using reasons_empty[of ?ps] by blast
  have m: "map Inr (fulfilled ?ps) = ?ps" using fulfilled_all[OF all] .
  have len: "length (fulfilled ?ps) = length tcs"
    using arg_cong[OF m, of length] by simp
  have nth: "fst (executeTool h st (tcs ! i)) = Inr (fulfilled ?ps ! i)" if "i < length tcs" for i
    using arg_cong[OF m, of "\<lambda>xs. xs ! i"] that len by simp
  show ?thesis using r len nth by (simp add: dispatchAll_result Promise_all_def)
qed

lemma tool_messages_push:
  assumes "conversations st cid = Some conv"
  shows "tool_messages (push_message cid m st) cid =
           tool_messages st cid @ (if role m = ''tool'' then [m] else [])"
  using assms by (simp add: push_message_def tool_messages_def)

lemma tool_messages_add_tool:
  assumes "conversations st cid \<noteq> None" "cid \<noteq> []" "c \<noteq> Null" "c \<noteq> Undefined"
  shows "tool_messages (addMessage ''tool'' c (Some cid) st) cid =
           tool_messages st cid @ [ui_message ''tool'' c]"
proof -
  from assms(1) obtain conv where conv: "conversations st cid = Some conv" by blast
  from addMessage_appends[OF conv assms(2,3,4), of "''tool''"] conv show ?thesis
    by (auto simp: tool_messages_def ui_message_def)
qed

lemma stringify_defined: "v \<noteq> Undefined \<Longrightarrow> stringify h v \<noteq> Null \<and> stringify h v \<noteq> Undefined"
  by (cases v) (simp_all add: stringify_def)

lemma append_results_tool_messages:
  assumes "conversations st cid \<noteq> None" "cid \<noteq> []"
    and "\<forall>p \<in> set pairs. (\<exists>g m. get (fst p) ''function'' = Inr g \<and> get g ''name'' = Inr (JStr m))
                          \<and> snd p \<noteq> Undefined"
  shows "fst (append_results h cid pairs st) = Inr () \<and>
         same_frame st (snd (append_results h cid pairs st)) \<and>
         tool_messages (snd (append_results h cid pairs st)) cid =
           tool_messages st cid @
           concat (map (\<lambda>p. tool_result_messages h (fst p) (snd p)) pairs)"
  using assms
proof (induction pairs arbitrary: st)
  case Nil
  show ?case by (simp add: same_frame_refl)
next
  case (Cons p pairs)
  obtain tc result where p: "p = (tc, result)" by (cases p)
  from Cons.prems(3) p obtain g m where
    g: "get tc ''function'' = Inr g" "get g ''name'' = Inr (JStr m)" and rd: "result \<noteq> Undefined"
    by auto
  obtain i where i: "get tc ''id'' = Inr i" using get_succeeds_any_key[OF g(1)] by blast
  let ?c = "stringify h result"
  let ?raw = "\<lparr>role = ''tool'', content = ?c, tool_calls = Undefined,
               tool_call_id = i, tool_name = JStr m\<rparr>"
  let ?st1 = "push_message cid ?raw st"
  let ?st2 = "addMessage ''tool'' ?c (Some cid) ?st1"
  have step: "append_results h cid (p # pairs) st = append_results h cid pairs ?st2"
    using p g i by (simp add: bind_def Let_def)
  obtain conv where conv: "conversations st cid = Some conv" using Cons.prems(1) by blast
  have c1: "conversations ?st1 cid \<noteq> None"
    using same_frame_conv[OF push_message_frame Cons.prems(1)] .
  have c2: "conversations ?st2 cid \<noteq> None"
    using same_frame_conv[OF addMessage_frame c1] .
  have t1: "tool_messages ?st1 cid = tool_messages st cid @ [?raw]"
    using tool_messages_push[OF conv, of ?raw] by simp
  have t2: "tool_messages ?st2 cid = tool_messages ?st1 cid @ [ui_message ''tool'' ?c]"
    using tool_messages_add_tool[OF c1 Cons.prems(2)] stringify_defined[OF rd, of h] by simp
  have trm: "tool_result_messages h tc result = [?raw, ui_message ''tool'' ?c]"
    using g i by (simp add: tool_result_messages_def get_opt_def)
  have rest: "\<forall>p \<in> set pairs. (\<exists>g m. get (fst p) ''function'' = Inr g \<and> get g ''name'' = Inr (JStr m))
                          \<and> snd p \<noteq> Undefined"
    using Cons.prems(3) by simp
  from Cons.IH[OF c2 Cons.prems(2) rest]
  have ih: "fst (append_results h cid pairs ?st2) = Inr ()"
    "same_frame ?st2 (snd (append_results h cid pairs ?st2))"
    "tool_messages (snd (append_results h cid pairs ?st2)) cid =
           tool_messages ?st2 cid @
           concat (map (\<lambda>p. tool_result_messages h (fst p) (snd p)) pairs)"
    by simp_all
  have fr: "same_frame st (snd (append_results h cid pairs ?st2))"
    using same_frame_trans[OF same_frame_trans[OF push_message_frame addMessage_frame] ih(2)] .
  show ?case
    unfolding step using ih(1) fr ih(3) t1 t2 trm p by simp
qed


lemma handle_response_dispatch:
  assumes tcs: "response_tool_calls r = Some tcs" and ne: "tcs \<noteq> []"
    and conv: "conversations st cid \<noteq> None" and cid: "cid \<noteq> []"
    and named: "\<forall>tc \<in> set tcs. \<exists>g m. get tc ''function'' = Inr g \<and> get g ''name'' = Inr (JStr m)"
    and ok: "\<forall>tc \<in> set tcs. \<not> isl (fst (executeTool h st0 tc))"
  shows "\<exists>results. fst (dispatchAll h st0 tcs) = Inr results \<and> length results = length tcs \<and>
           (\<forall>i < length tcs. fst (executeTool h st0 (tcs ! i)) = Inr (results ! i)) \<and>
           fst (handle_response h cid r st) = Inr Continue \<and>
           same_frame st (snd (handle_response h cid r st)) \<and>
           tool_messages (snd (handle_response h cid r st)) cid =
             tool_messages st cid @
             concat (map (\<lambda>p. tool_result_messages h (fst p) (snd p)) (zip tcs results))"
proof -
  from dispatchAll_ok[OF ok] obtain results where
    d0: "fst (dispatchAll h st0 tcs) = Inr results" and len: "length results = length tcs"
    and nth: "\<forall>i < length tcs. fst (executeTool h st0 (tcs ! i)) = Inr (results ! i)" by blast
  let ?st1 = "if truthy (response_content r)
              then addMessage ''assistant'' (response_content r) (Some cid) st else st"
  from names_step_ok[OF named] obtain names where
    names: "bind (sequence (map (\<lambda>tc. bind (get tc ''function'') (\<lambda>f. get f ''name'')) tcs))
              (join '', '') = Inr names" by blast
  let ?st2 = "addMessage ''assistant'' (JStr (''Using tools: '' @ names)) (Some cid) ?st1"
  let ?st3 = "push_message cid
                \<lparr>role = ''assistant'', content = Null, tool_calls = JArr tcs,
                 tool_call_id = Undefined, tool_name = Undefined\<rparr> ?st2"
  obtain res st4 where d: "dispatchAll h ?st3 tcs = (res, st4)"
    by (cases "dispatchAll h ?st3 tcs")
  have res: "res = Inr results"
    using d d0 dispatchAll_result_indep[of h ?st3 tcs st0] by simp
  have rt: "requests_tools r" using tcs ne by (simp add: requests_tools_def)
  have s1: "same_frame st ?st1" "tool_messages ?st1 cid = tool_messages st cid"
    using prelude_frame[of st "response_content r" "Some cid" cid] by simp_all
  have s2: "same_frame ?st1 ?st2" "tool_messages ?st2 cid = tool_messages ?st1 cid"
    using addMessage_frame addMessage_tool_messages[of "''assistant''"] by simp_all
  have s3: "same_frame ?st2 ?st3" "tool_messages ?st3 cid = tool_messages ?st2 cid"
    using push_message_frame push_message_tool_messages by simp_all
  have s4: "same_frame ?st3 st4" "tool_messages st4 cid = tool_messages ?st3 cid"
    using dispatchAll_frame[of ?st3 h tcs cid] d by simp_all
  have fr4: "same_frame st st4"
    using same_frame_trans[OF same_frame_trans[OF same_frame_trans[OF s1(1) s2(1)] s3(1)] s4(1)] .
  have tm4: "tool_messages st4 cid = tool_messages st cid"
    using s1(2) s2(2) s3(2) s4(2) by simp
  have c4: "conversations st4 cid \<noteq> None" using same_frame_conv[OF fr4 conv] .
  have pairs: "\<forall>p \<in> set (zip tcs results).
                 (\<exists>g m. get (fst p) ''function'' = Inr g \<and> get g ''name'' = Inr (JStr m))
                 \<and> snd p \<noteq> Undefined"
  proof
    fix p assume "p \<in> set (zip tcs results)"
    then obtain i where i: "i < length tcs" "p = (tcs ! i, results ! i)"
      using len by (auto simp: in_set_zip)
    have "fst (executeTool h st0 (tcs ! i)) = Inr (results ! i)" using nth i(1) by blast
    then have "results ! i \<noteq> Undefined" using executeTool_payload_defined by blast
    moreover have "tcs ! i \<in> set tcs" using i(1) by simp
    ultimately show "(\<exists>g m. get (fst p) ''function'' = Inr g \<and> get g ''name'' = Inr (JStr m))
                 \<and> snd p \<noteq> Undefined" using named i(2) by auto
  qed
  obtain u st5 where a: "append_results h cid (zip tcs results) st4 = (u, st5)"
    by (cases "append_results h cid (zip tcs results) st4")
  from append_results_tool_messages[OF c4 cid pairs, of h] a
  have a5: "u = Inr ()" "same_frame st4 st5"
    "tool_messages st5 cid = tool_messages st4 cid @
       concat (map (\<lambda>p. tool_result_messages h (fst p) (snd p)) (zip tcs results))"
    by simp_all
  have hr: "handle_response h cid r st = (Inr Continue, st5)"
    using rt tcs names d res a a5(1) by (simp add: handle_response_def Let_def)
  have "same_frame st st5" using same_frame_trans[OF fr4 a5(2)] .
  with hr d0 len nth a5(3) tm4 show ?thesis by auto
qed

lemma iteration_dispatch:
  assumes conv: "conversations st cid = Some conv" and cid: "cid \<noteq> []"
    and call: "callLLM h st conv = (Inr data, st1)"
    and norm: "norm data (provider (settings st)) = Inr r"
    and tcs: "response_tool_calls r = Some tcs" and ne: "tcs \<noteq> []"
    and named: "\<forall>tc \<in> set tcs. \<exists>g m. get tc ''function'' = Inr g \<and> get g ''name'' = Inr (JStr m)"
    and ok: "\<forall>tc \<in> set tcs. \<not> isl (fst (executeTool h st tc))"
  shows "\<exists>results st'. fst (dispatchAll h st tcs) = Inr results \<and> length results = length tcs \<and>
           (\<forall>i < length tcs. fst (executeTool h st (tcs ! i)) = Inr (results ! i)) \<and>
           iteration norm h cid st = ([AWAIT_MODEL, DISPATCH_TOOLS], Continue, st') \<and>
           tool_messages st' cid =
             tool_messages st cid @
             concat (map (\<lambda>p. tool_result_messages h (fst p) (snd p)) (zip tcs results))"
proof -
  let ?st2 = "st1\<lparr>apiCalls := apiCalls st1 + 1\<rparr>"
  have cf: "same_frame st ?st2" "tool_messages ?st2 cid = tool_messages st cid"
    using call_frame[OF call, of cid] by simp_all
  have c2: "conversations ?st2 cid \<noteq> None" using same_frame_conv[OF cf(1)] conv by simp
  from handle_response_dispatch[OF tcs ne c2 cid named ok]
  obtain results where
    res: "fst (dispatchAll h st tcs) = Inr results" "length results = length tcs"
      "\<forall>i < length tcs. fst (executeTool h st (tcs ! i)) = Inr (results ! i)"
      "fst (handle_response h cid r ?st2) = Inr Continue"
      "tool_messages (snd (handle_response h cid r ?st2)) cid =
         tool_messages ?st2 cid @
         concat (map (\<lambda>p. tool_result_messages h (fst p) (snd p)) (zip tcs results))"
    by blast
  obtain x st3 where hr: "handle_response h cid r ?st2 = (x, st3)"
    by (cases "handle_response h cid r ?st2")
  have rt: "requests_tools r" using tcs ne by (simp add: requests_tools_def)
  have "iteration norm h cid st = ([AWAIT_MODEL, DISPATCH_TOOLS], Continue, st3)"
    using iteration_after_parse[where norm = norm, OF conv call norm] hr res(4) rt by simp
  with res hr cf(2) show ?thesis by auto
qed

lemma executeTool_unnamed:
  assumes f: "get tc ''function'' = Inr f"
    and n: "\<not> truthy (get_opt (js_or f (JObj [])) ''name'')"
  shows "fst (executeTool h st tc) = Inr (JObj [(''error'', JStr ''Unknown tool: unknown'')])"
proof -
  have name: "js_or (get_opt (js_or f (JObj [])) ''name'') (JStr ''unknown'') = JStr ''unknown''"
    using n by (simp add: js_or_def)
  have "''unknown'' \<notin> set (map fn_name initializeTools)" unfolding registry_names by simp
  from run_tool_unknown[OF this] f name show ?thesis by (simp add: executeTool_def Let_def)
qed

text \<open>
  Claim C10, as amended. A tool-call request handed to \<^verbatim>\<open>executeTool\<close> that names, by a
  non-empty string, a tool outside the registry of \<^verbatim>\<open>initializeTools\<close> gets the payload
  \<^verbatim>\<open>{error: "Unknown tool: <name>"}\<close> and nothing else; a request whose name is missing
  or empty is reported under the name \<^verbatim>\<open>unknown\<close>. When the loop dispatches a batch that
  holds the request (every request of the batch has a string for a name, and no
  invocation throws), that payload is the result at the position of the request, the
  results are appended as tool messages in the order of the requests, and the iteration
  does not break: the next phase is \<open>AWAIT_MODEL\<close> when a turn of the budget is left,
  and \<open>TERMINATED\<close> when none is. Whether a request of the model reaches the dispatch
  is not part of this statement.
\<close>

theorem unknown_tool_result:
  assumes f: "get toolCall ''function'' = Inr f" and n: "get f ''name'' = Inr (JStr n)"
    and ne: "n \<noteq> []" and un: "n \<notin> set (map fn_name initializeTools)"
  shows "fst (executeTool h st toolCall) = Inr (JObj [(''error'', JStr (''Unknown tool: '' @ n))])
         \<and> (get tc0 ''function'' = Inr f0 \<and> \<not> truthy (get_opt (js_or f0 (JObj [])) ''name'')
             \<longrightarrow> fst (executeTool h st tc0) = Inr (JObj [(''error'', JStr ''Unknown tool: unknown'')]))
         \<and> (conversations st cid = Some conv \<and> cid \<noteq> [] \<and>
             callLLM h st conv = (Inr data, st1) \<and>
             norm data (provider (settings st)) = Inr r \<and>
             response_tool_calls r = Some tcs \<and> i < length tcs \<and> tcs ! i = toolCall \<and>
             (\<forall>tc \<in> set tcs.
                (\<exists>g m. get tc ''function'' = Inr g \<and> get g ''name'' = Inr (JStr m)) \<and>
                \<not> isl (fst (executeTool h st tc)))
             \<longrightarrow> (\<exists>results.
                    fst (dispatchAll h st tcs) = Inr results \<and> length results = length tcs \<and>
                    results ! i = JObj [(''error'', JStr (''Unknown tool: '' @ n))] \<and>
                    tool_messages (snd (snd (iteration norm h cid st))) cid =
                      tool_messages st cid @
                      concat (map (\<lambda>p. tool_result_messages h (fst p) (snd p))
                                (zip tcs results)))
                 \<and> fst (snd (iteration norm h cid st)) = Continue
                 \<and> take 3 (fst (loop norm h cid (Suc (Suc k)) st)) =
                     [AWAIT_MODEL, DISPATCH_TOOLS, AWAIT_MODEL]
                 \<and> fst (loop norm h cid (Suc 0) st) =
                     [AWAIT_MODEL, DISPATCH_TOOLS, TERMINATED])"
proof (intro conjI impI)
  show e: "fst (executeTool h st toolCall) = Inr (JObj [(''error'', JStr (''Unknown tool: '' @ n))])"
    using executeTool_unknown[OF f n ne un, of h st] by simp
  {
    assume "get tc0 ''function'' = Inr f0 \<and> \<not> truthy (get_opt (js_or f0 (JObj [])) ''name'')"
    then show "fst (executeTool h st tc0) = Inr (JObj [(''error'', JStr ''Unknown tool: unknown'')])"
      using executeTool_unnamed[of tc0 f0 h st] by simp
  }
  assume a: "conversations st cid = Some conv \<and> cid \<noteq> [] \<and>
             callLLM h st conv = (Inr data, st1) \<and>
             norm data (provider (settings st)) = Inr r \<and>
             response_tool_calls r = Some tcs \<and> i < length tcs \<and> tcs ! i = toolCall \<and>
             (\<forall>tc \<in> set tcs.
                (\<exists>g m. get tc ''function'' = Inr g \<and> get g ''name'' = Inr (JStr m)) \<and>
                \<not> isl (fst (executeTool h st tc)))"
  then have a1: "conversations st cid = Some conv" and a2: "cid \<noteq> []"
    and a3: "callLLM h st conv = (Inr data, st1)"
    and a4: "norm data (provider (settings st)) = Inr r"
    and a5: "response_tool_calls r = Some tcs" and a6: "i < length tcs" and a7: "tcs ! i = toolCall"
    and a8: "\<forall>tc \<in> set tcs. \<exists>g m. get tc ''function'' = Inr g \<and> get g ''name'' = Inr (JStr m)"
    and a9: "\<forall>tc \<in> set tcs. \<not> isl (fst (executeTool h st tc))"
    by simp_all
  have ne': "tcs \<noteq> []" using a6 by auto
  from iteration_dispatch[where norm = norm, OF a1 a2 a3 a4 a5 ne' a8 a9]
  obtain results st' where
    res: "fst (dispatchAll h st tcs) = Inr results" "length results = length tcs"
      "\<forall>i < length tcs. fst (executeTool h st (tcs ! i)) = Inr (results ! i)"
    and it: "iteration norm h cid st = ([AWAIT_MODEL, DISPATCH_TOOLS], Continue, st')"
    and tm: "tool_messages st' cid =
             tool_messages st cid @
             concat (map (\<lambda>p. tool_result_messages h (fst p) (snd p)) (zip tcs results))"
    by blast
  have ri: "results ! i = JObj [(''error'', JStr (''Unknown tool: '' @ n))]"
    using res(3) a6 a7 e by auto
  show "\<exists>results.
          fst (dispatchAll h st tcs) = Inr results \<and> length results = length tcs \<and>
          results ! i = JObj [(''error'', JStr (''Unknown tool: '' @ n))] \<and>
          tool_messages (snd (snd (iteration norm h cid st))) cid =
            tool_messages st cid @
            concat (map (\<lambda>p. tool_result_messages h (fst p) (snd p)) (zip tcs results))"
    using res(1,2) ri tm it by auto
  show "fst (snd (iteration norm h cid st)) = Continue" using it by simp
  obtain rest where r: "fst (loop norm h cid (Suc k) st') = AWAIT_MODEL # rest"
    using loop_starts[of norm h cid k st'] by blast
  obtain tr st2 where l: "loop norm h cid (Suc k) st' = (tr, st2)"
    by (cases "loop norm h cid (Suc k) st'")
  have "fst (loop norm h cid (Suc (Suc k)) st) = [AWAIT_MODEL, DISPATCH_TOOLS] @ tr"
    using it l by simp
  with r l show "take 3 (fst (loop norm h cid (Suc (Suc k)) st)) =
                   [AWAIT_MODEL, DISPATCH_TOOLS, AWAIT_MODEL]" by simp
  show "fst (loop norm h cid (Suc 0) st) = [AWAIT_MODEL, DISPATCH_TOOLS, TERMINATED]"
    using it by simp
qed


lemma keep_two:
  "keeping_tool_calls (chat_completion (JObj [(''content'', Null), (''tool_calls'', JArr two_calls)])) ''aipipe'' =
     Inr \<lparr>response_content = JStr [], response_tool_calls = Some two_calls\<rparr>"
  by code_simp

lemma two_calls_dispatch:
  "fst (dispatchAll two_tools example_state two_calls) =
     Inr [search_payload, JObj [(''error'', JStr ''Unknown tool: nope'')]]"
  by code_simp

lemma two_calls_ok:
  "\<forall>tc \<in> set two_calls.
      (\<exists>g m. get tc ''function'' = Inr g \<and> get g ''name'' = Inr (JStr m)) \<and>
      \<not> isl (fst (executeTool two_tools example_state tc))"
proof -
  have "\<not> isl (fst (executeTool two_tools example_state (tool_call ''call_1'' ''web_search'' ''{}'')))"
    "\<not> isl (fst (executeTool two_tools example_state (tool_call ''call_2'' ''nope'' ''{}'')))"
    by code_simp+
  then show ?thesis using tool_call_function by (simp add: two_calls_def)
qed

text \<open>
  A model that asks for \<^verbatim>\<open>web_search\<close> and for the unregistered \<^verbatim>\<open>nope\<close>, run with the
  normaliser that keeps the requests; and a request without a name.
\<close>

theorem unknown_tool_result_witness:
  "fst (executeTool two_tools example_state (tool_call ''call_2'' ''nope'' ''{}''))
     = Inr (JObj [(''error'', JStr ''Unknown tool: nope'')])
   \<and> fst (executeTool two_tools example_state unnamed_call)
     = Inr (JObj [(''error'', JStr ''Unknown tool: unknown'')])
   \<and> fst (dispatchAll two_tools example_state two_calls)
     = Inr [search_payload, JObj [(''error'', JStr ''Unknown tool: nope'')]]
   \<and> tool_messages (snd (snd (iteration keeping_tool_calls two_tools ''conv_1'' example_state)))
        ''conv_1''
     = tool_result_messages two_tools (tool_call ''call_1'' ''web_search'' ''{}'') search_payload @
       tool_result_messages two_tools (tool_call ''call_2'' ''nope'' ''{}'')
         (JObj [(''error'', JStr ''Unknown tool: nope'')])
   \<and> fst (snd (iteration keeping_tool_calls two_tools ''conv_1'' example_state)) = Continue
   \<and> take 3 (fst (loop keeping_tool_calls two_tools ''conv_1'' (Suc (Suc 3)) example_state))
       = [AWAIT_MODEL, DISPATCH_TOOLS, AWAIT_MODEL]
   \<and> fst (loop keeping_tool_calls two_tools ''conv_1'' (Suc 0) example_state)
       = [AWAIT_MODEL, DISPATCH_TOOLS, TERMINATED]"
proof -
  let ?data = "chat_completion (JObj [(''content'', Null), (''tool_calls'', JArr two_calls)])"
  let ?r = "\<lparr>response_content = JStr [], response_tool_calls = Some two_calls\<rparr>"
  obtain st1 where call: "callLLM two_tools example_state example_conversation = (Inr ?data, st1)"
    using constant_fetch_call[OF example_state_inv(1), of two_tools ?data example_conversation]
    by (auto simp: two_tools_def)
  have norm: "keeping_tool_calls ?data (provider (settings example_state)) = Inr ?r"
    using keep_two by (simp add: example_state_inv(1) example_settings_def)
  have sel: "response_tool_calls ?r = Some two_calls" "(1::nat) < length two_calls"
    "two_calls ! 1 = tool_call ''call_2'' ''nope'' ''{}''"
    by (simp_all add: two_calls_def)
  have un0: "get unnamed_call ''function'' = Inr (JObj [])"
    "\<not> truthy (get_opt (js_or (JObj []) (JObj [])) ''name'')"
    by (simp_all add: unnamed_call_def js_or_def get_opt_def)
  have tm0: "tool_messages example_state ''conv_1'' = []"
    by (simp add: tool_messages_def example_state_def example_conversation_def ui_message_def)
  have cid: "''conv_1'' \<noteq> []" by simp
  have z: "zip two_calls [search_payload, JObj [(''error'', JStr ''Unknown tool: nope'')]] =
     [(tool_call ''call_1'' ''web_search'' ''{}'', search_payload),
      (tool_call ''call_2'' ''nope'' ''{}'', JObj [(''error'', JStr ''Unknown tool: nope'')])]"
    by (simp add: two_calls_def)
  show ?thesis
    using unknown_tool_result[where norm = keeping_tool_calls and h = two_tools
        and st = example_state and cid = "''conv_1''" and conv = example_conversation
        and k = 3 and i = 1 and tcs = two_calls
        and toolCall = "tool_call ''call_2'' ''nope'' ''{}''"
        and data = ?data and ?st1.0 = st1 and r = ?r
        and ?tc0.0 = unnamed_call and ?f0.0 = "JObj []",
        OF tool_call_function nope_unknown[THEN conjunct1] nope_unknown[THEN conjunct2]]
      example_state_inv(3) cid call norm sel two_calls_ok un0 two_calls_dispatch tm0 z
    by auto
qed

text \<open>
  The claim as stated fails in three ways. A request with the empty name is answered
  with \<^verbatim>\<open>Unknown tool: unknown\<close>, not with its own name. Run by \<^verbatim>\<open>agentLoop\<close> itself, a
  model response that asks for the unknown tool \<^verbatim>\<open>nope\<close> yields no tool message, and the
  loop terminates after that model call. And a batch in which \<^verbatim>\<open>nope\<close> stands next to a
  request that throws ends the dispatch branch with an exception.
\<close>

theorem unknown_tool_counterexample:
  "fst (executeTool (scripted_host []) example_state (tool_call ''call_1'' [] ''{}''))
     = Inr (JObj [(''error'', JStr ''Unknown tool: unknown'')])
   \<and> fst (agentLoop (scripted_host [http 200 ''OK'' (chat_completion unknown_tool_message)])
            ''conv_1'' example_state) = [AWAIT_MODEL, TERMINATED]
   \<and> tool_messages
        (snd (agentLoop (scripted_host [http 200 ''OK'' (chat_completion unknown_tool_message)])
                ''conv_1'' example_state)) ''conv_1'' = []
   \<and> tool_call ''call_2'' ''nope'' ''{}'' \<in> set raising_batch
   \<and> isl (fst (handle_response (scripted_host []) ''conv_1''
              \<lparr>response_content = JStr [], response_tool_calls = Some raising_batch\<rparr>
              example_state))"
  by code_simp


section \<open>An executor that throws\<close>

text \<open>
  Claim C6, as amended. When an invocation of a dispatched batch throws, nothing catches
  the exception at that invocation: the dispatch fails as a whole, the exception reaches
  the \<^verbatim>\<open>catch\<close> of the loop, which appends a system message and leaves the loop, and
  no tool message is appended for any request of the batch, the siblings included.
  (Only a request for an unknown tool has its error embedded in the payload.)
\<close>

theorem executor_exception_ends_turn:
  assumes conv: "conversations st cid = Some conv" and cid: "cid \<noteq> []"
    and call: "callLLM h st conv = (Inr data, st1)"
    and norm: "norm data (provider (settings st)) = Inr r"
    and tcs: "response_tool_calls r = Some tcs" and tc: "tc \<in> set tcs"
    and raise: "isl (fst (executeTool h st tc))"
  shows "isl (fst (dispatchAll h st tcs))
         \<and> fst (snd (iteration norm h cid st)) = Break
         \<and> tool_messages (snd (snd (iteration norm h cid st))) k = tool_messages st k
         \<and> (\<exists>conv' text. conversations (snd (snd (iteration norm h cid st))) cid = Some conv' \<and>
               messages conv' \<noteq> [] \<and>
               last (messages conv') =
                 ui_message ''system'' (JStr (''Agent iteration error: '' @ text)))"
proof -
  let ?st2 = "st1\<lparr>apiCalls := apiCalls st1 + 1\<rparr>"
  obtain res st3 where hr: "handle_response h cid r ?st2 = (res, st3)"
    by (cases "handle_response h cid r ?st2")
  have h3: "isl res" "same_frame ?st2 st3" "tool_messages st3 k = tool_messages ?st2 k"
    using handle_response_raises[OF tcs tc raise, of cid ?st2 k] hr by simp_all
  then obtain e where e: "res = Inl e" by (cases res) auto
  have cf: "same_frame st ?st2" "tool_messages ?st2 k = tool_messages st k"
    using call_frame[OF call, of k] by simp_all
  have it: "iteration norm h cid st =
              (if requests_tools r then [AWAIT_MODEL, DISPATCH_TOOLS] else [AWAIT_MODEL],
               Break, on_error e cid st3)"
    using iteration_after_parse[where norm = norm, OF conv call norm] hr e by simp
  have "conversations st3 cid \<noteq> None"
    using same_frame_conv[OF same_frame_trans[OF cf(1) h3(2)]] conv by simp
  then obtain c3 where c3: "conversations st3 cid = Some c3" by blast
  from on_error_appends[OF c3 cid, of e]
  obtain conv' tx where c': "conversations (on_error e cid st3) cid = Some conv'"
    "messages conv' = messages c3 @ [ui_message ''system'' (JStr (''Agent iteration error: '' @ tx))]"
    by blast
  have tm: "tool_messages (on_error e cid st3) k = tool_messages st k"
    using on_error_tool_messages[of e cid st3 k] h3(3) cf(2) by simp
  show ?thesis
    using dispatch_raises[OF tc raise, of st] it tm c' by auto
qed


lemma null_arguments_raise:
  "isl (fst (executeTool raising_tools example_state null_arguments_call))"
  by code_simp

theorem executor_exception_ends_turn_witness:
  "isl (fst (executeTool raising_tools example_state null_arguments_call))
   \<and> isl (fst (dispatchAll raising_tools example_state raising_batch))
   \<and> fst (snd (iteration keeping_tool_calls raising_tools ''conv_1'' example_state)) = Break
   \<and> tool_messages (snd (snd (iteration keeping_tool_calls raising_tools ''conv_1'' example_state)))
        ''conv_1'' = []
   \<and> (\<exists>conv' tx.
         conversations (snd (snd (iteration keeping_tool_calls raising_tools ''conv_1'' example_state)))
           ''conv_1'' = Some conv' \<and>
         messages conv' \<noteq> [] \<and>
         last (messages conv') = ui_message ''system'' (JStr (''Agent iteration error: '' @ tx)))"
proof -
  let ?data = "chat_completion (JObj [(''content'', Null), (''tool_calls'', JArr raising_batch)])"
  obtain st1 where call:
    "callLLM raising_tools example_state example_conversation = (Inr ?data, st1)"
    using constant_fetch_call[OF example_state_inv(1), of raising_tools ?data example_conversation]
    by (auto simp: raising_tools_def)
  have norm: "keeping_tool_calls ?data (provider (settings example_state)) =
     Inr \<lparr>response_content = JStr [], response_tool_calls = Some raising_batch\<rparr>"
    using keep_raising by (simp add: example_state_inv(1) example_settings_def)
  have tm: "tool_messages example_state ''conv_1'' = []"
    by (simp add: tool_messages_def example_state_def example_conversation_def ui_message_def)
  have mem: "null_arguments_call \<in> set raising_batch" by (simp add: raising_batch_def)
  show ?thesis
    using executor_exception_ends_turn[where norm = keeping_tool_calls and k = "''conv_1''",
        OF example_state_inv(3) _ call norm _ mem null_arguments_raise]
      null_arguments_raise tm
    by simp
qed

text \<open>
  The claim as stated fails on a batch of two requests, a search whose arguments decode
  to \<^verbatim>\<open>null\<close> and a request for the unknown tool \<^verbatim>\<open>nope\<close>. The second alone yields its
  payload; in the batch, the first throws, the branch ends with an exception, and the
  conversation holds no tool message, neither for the first nor for the second.
\<close>

theorem executor_exception_counterexample:
  "fst (executeTool (scripted_host []) example_state (tool_call ''call_2'' ''nope'' ''{}''))
     = Inr (JObj [(''error'', JStr ''Unknown tool: nope'')])
   \<and> isl (fst (handle_response (scripted_host []) ''conv_1''
              \<lparr>response_content = JStr [], response_tool_calls = Some raising_batch\<rparr>
              example_state))
   \<and> tool_messages
        (snd (handle_response (scripted_host []) ''conv_1''
                \<lparr>response_content = JStr [], response_tool_calls = Some raising_batch\<rparr>
                example_state)) ''conv_1'' = []"
  by code_simp


section \<open>The budget is reached\<close>

text \<open>
  A model that asks for a tool on every call, run with the normaliser that keeps the
  requests: five model calls, each followed by a dispatch, then the forced end. No
  iteration went through the \<^verbatim>\<open>catch\<close> block, which would have ended the loop.
\<close>

theorem agentLoop_turn_budget_witness:
  "fst (agentLoop_with keeping_tool_calls always_tools ''conv_1'' example_state) =
     [AWAIT_MODEL, DISPATCH_TOOLS, AWAIT_MODEL, DISPATCH_TOOLS, AWAIT_MODEL, DISPATCH_TOOLS,
      AWAIT_MODEL, DISPATCH_TOOLS, AWAIT_MODEL, DISPATCH_TOOLS, TERMINATED]
   \<and> count_list (fst (agentLoop_with keeping_tool_calls always_tools ''conv_1'' example_state))
        AWAIT_MODEL \<le> 5
   \<and> conversations example_state ''conv_1'' \<noteq> None
   \<and> last (fst (agentLoop_with keeping_tool_calls always_tools ''conv_1'' example_state))
       = TERMINATED"
proof -
  have "fst (agentLoop_with keeping_tool_calls always_tools ''conv_1'' example_state) =
          concat (replicate 5 [AWAIT_MODEL, DISPATCH_TOOLS]) @ [TERMINATED]"
    using always_tools_loop[OF example_state_inv(1,2), of 5]
    by (simp add: agentLoop_with_def example_state_inv(3))
  then have tr: "fst (agentLoop_with keeping_tool_calls always_tools ''conv_1'' example_state) =
     [AWAIT_MODEL, DISPATCH_TOOLS, AWAIT_MODEL, DISPATCH_TOOLS, AWAIT_MODEL, DISPATCH_TOOLS,
      AWAIT_MODEL, DISPATCH_TOOLS, AWAIT_MODEL, DISPATCH_TOOLS, TERMINATED]"
    by (simp add: eval_nat_numeral)
  show ?thesis
    using agentLoop_turn_budget[of keeping_tool_calls always_tools "''conv_1''" example_state]
      example_state_inv(2) tr by simp
qed


section \<open>The conversation of the loop stays in the map\<close>

text \<open>
  No step removes a conversation, changes the settings or the current conversation:
  the object that \<^verbatim>\<open>agentLoop\<close> fetched before the loop is the one found under its
  identifier in every iteration.
\<close>

lemma on_error_frame: "same_frame st (on_error e cid st)"
  by (simp add: on_error_def addMessage_frame)

lemma handle_response_frame: "same_frame st (snd (handle_response h cid r st))"
proof -
  let ?st1 = "if truthy (response_content r)
              then addMessage ''assistant'' (response_content r) (Some cid) st else st"
  have s1: "same_frame st ?st1"
    using prelude_frame[of st "response_content r" "Some cid"] by simp
  show ?thesis
  proof (cases "requests_tools r")
    case False
    with s1 show ?thesis by (simp add: handle_response_def Let_def)
  next
    case True
    let ?tcs = "case response_tool_calls r of None \<Rightarrow> [] | Some ts \<Rightarrow> ts"
    show ?thesis
    proof (cases "bind (sequence (map (\<lambda>tc. bind (get tc ''function'') (\<lambda>f. get f ''name'')) ?tcs))
                    (join '', '')")
      case (Inl e)
      with True s1 show ?thesis by (simp add: handle_response_def Let_def)
    next
      case (Inr names)
      let ?st2 = "addMessage ''assistant'' (JStr (''Using tools: '' @ names)) (Some cid) ?st1"
      let ?st3 = "push_message cid
                    \<lparr>role = ''assistant'', content = Null, tool_calls = JArr ?tcs,
                     tool_call_id = Undefined, tool_name = Undefined\<rparr> ?st2"
      obtain res st4 where d: "dispatchAll h ?st3 ?tcs = (res, st4)"
        by (cases "dispatchAll h ?st3 ?tcs")
      have s2: "same_frame ?st1 ?st2" using addMessage_frame .
      have s3: "same_frame ?st2 ?st3" using push_message_frame .
      have s4: "same_frame ?st3 st4" using dispatchAll_frame[of ?st3 h ?tcs] d by simp
      have s: "same_frame st st4"
        using same_frame_trans[OF same_frame_trans[OF same_frame_trans[OF s1 s2] s3] s4] .
      show ?thesis
      proof (cases res)
        case (Inl e)
        with True Inr d s show ?thesis by (simp add: handle_response_def Let_def)
      next
        case r: (Inr toolResults)
        obtain u st5 where a: "append_results h cid (zip ?tcs toolResults) st4 = (u, st5)"
          by (cases "append_results h cid (zip ?tcs toolResults) st4")
        have "same_frame st4 st5"
          using append_results_frame[of st4 h cid "zip ?tcs toolResults"] a by simp
        with s have "same_frame st st5" using same_frame_trans by blast
        with True Inr d r a show ?thesis
          by (cases u) (simp_all add: handle_response_def Let_def)
      qed
    qed
  qed
qed

lemma iteration_frame: "same_frame st (snd (snd (iteration norm h cid st)))"
proof (cases "conversations st cid")
  case None
  then show ?thesis by (simp add: iteration_def same_frame_refl)
next
  case (Some conv)
  obtain res st1 where call: "callLLM h st conv = (res, st1)" by (cases "callLLM h st conv")
  let ?st2 = "st1\<lparr>apiCalls := apiCalls st1 + 1\<rparr>"
  have c1: "same_frame st st1"
    using callLLM_frame[of h st conv] call by (simp add: same_frame_def)
  have c2: "same_frame st ?st2" using call_frame[OF call] by simp
  show ?thesis
  proof (cases res)
    case (Inl e)
    with Some call same_frame_trans[OF c1 on_error_frame] show ?thesis
      by (simp add: iteration_def)
  next
    case (Inr data)
    show ?thesis
    proof (cases "norm data (provider (settings ?st2))")
      case (Inl e)
      with Some call Inr same_frame_trans[OF c2 on_error_frame] show ?thesis
        by (simp add: iteration_def Let_def)
    next
      case r: (Inr r)
      obtain res' st3 where hr: "handle_response h cid r ?st2 = (res', st3)"
        by (cases "handle_response h cid r ?st2")
      have s3: "same_frame st st3"
        using same_frame_trans[OF c2] handle_response_frame[of ?st2 h cid r] hr by simp
      show ?thesis
      proof (cases res')
        case (Inl e)
        with Some call Inr r hr same_frame_trans[OF s3 on_error_frame] show ?thesis
          by (simp add: iteration_def Let_def)
      next
        case (Inr oc)
        with Some call \<open>res = Inr data\<close> r hr s3 show ?thesis
          by (simp add: iteration_def Let_def)
      qed
    qed
  qed
qed

lemma loop_frame: "same_frame st (snd (loop norm h cid n st))"
proof (induction n arbitrary: st)
  case 0
  show ?case by (simp add: same_frame_refl)
next
  case (Suc n)
  obtain ps oc st1 where it: "iteration norm h cid st = (ps, oc, st1)"
    by (cases "iteration norm h cid st") auto
  have f1: "same_frame st st1" using iteration_frame[of st norm h cid] it by simp
  show ?case
  proof (cases oc)
    case Break
    with it f1 show ?thesis by simp
  next
    case Continue
    obtain tr st2 where l: "loop norm h cid n st1 = (tr, st2)"
      by (cases "loop norm h cid n st1")
    have "same_frame st1 st2" using Suc.IH[of st1] l by simp
    with f1 have "same_frame st st2" using same_frame_trans by blast
    with it Continue l show ?thesis by simp
  qed
qed

lemma loop_keeps_conversation:
  "conversations st k \<noteq> None \<Longrightarrow> conversations (snd (loop norm h cid n st)) k \<noteq> None"
  using same_frame_conv[OF loop_frame] .


end
